theory Spec2Isabelle
  imports Complex_Main
begin

section \<open>Arrays\<close>

text \<open>
  The models \<open>PowerDing2018\<close> (bao_power_Ding2018.py) and \<open>CorrSeo2016\<close>
  (bao_correlation_Seo2016.py) compute with numpy arrays of float64. Arrays are lists
  here (a 2-D array is the list of its rows) and float64 is idealised as \<open>real\<close>:
  rounding error, overflow and the values inf and nan are not represented. The numpy
  operations below are written for arrays of matching shapes, which is what the
  cosmology provider's length-matched grids give; where numpy would refuse two shapes
  the list operation truncates, so every theorem about entries names the index bounds
  it is about.
\<close>

type_synonym vec = "real list"
type_synonym mat = "real list list"

definition np_zeros :: "nat \<Rightarrow> vec" where
  "np_zeros n = replicate n 0"

definition np_ones :: "nat \<Rightarrow> vec" where
  "np_ones n = replicate n 1"

definition np_outer :: "vec \<Rightarrow> vec \<Rightarrow> mat" where
  "np_outer a b = map (\<lambda>x. map (\<lambda>y. x * y) b) a"

text \<open>\<open>np.tile(v, (n, 1))\<close>: n rows, each a copy of v.\<close>

definition np_tile :: "vec \<Rightarrow> nat \<Rightarrow> mat" where
  "np_tile v n = replicate n v"

text \<open>\<open>M.T\<close> for a 2-D array with \<open>ncols\<close> columns.\<close>

definition np_transpose :: "nat \<Rightarrow> mat \<Rightarrow> mat" where
  "np_transpose ncols M = map (\<lambda>j. map (\<lambda>r. r ! j) M) [0..<ncols]"

text \<open>\<open>v ** 2\<close> on a 1-D array.\<close>

definition vsq :: "vec \<Rightarrow> vec" where
  "vsq v = map (\<lambda>x. x ^ 2) v"

text \<open>A scalar function applied to every entry (a scalar operand broadcast).\<close>

definition mmap :: "(real \<Rightarrow> real) \<Rightarrow> mat \<Rightarrow> mat" where
  "mmap f M = map (map f) M"

text \<open>An entrywise binary operation on two 2-D arrays of one shape.\<close>

definition mzip :: "(real \<Rightarrow> real \<Rightarrow> real) \<Rightarrow> mat \<Rightarrow> mat \<Rightarrow> mat" where
  "mzip f A B = map2 (map2 f) A B"

text \<open>A 2-D array combined with a 1-D array broadcast along the rows.\<close>

definition mrow :: "(real \<Rightarrow> real \<Rightarrow> real) \<Rightarrow> mat \<Rightarrow> vec \<Rightarrow> mat" where
  "mrow f A v = map (\<lambda>r. map2 f r v) A"

text \<open>
  A value that the source holds in one variable as a 1-D array on one path and as
  a 2-D array on another (\<open>propagator\<close>, \<open>shape\<close>, \<open>kprime\<close>).
\<close>

datatype ndarray = A1 vec | A2 mat

text \<open>An array of any rank, for the polynomial terms handed to the caller.\<close>

datatype nd = Scalar real | Arr "nd list"

section \<open>Errors and parameters\<close>

datatype error =
    KeyError string
  | ZeroDivisionError
  | IndexError
  | NotImplementedError string

definition bindE :: "error + 'a \<Rightarrow> ('a \<Rightarrow> error + 'b) \<Rightarrow> error + 'b" where
  "bindE x f = (case x of Inl err \<Rightarrow> Inl err | Inr v \<Rightarrow> f v)"

text \<open>The parameter set \<open>p\<close>: a dict from names to Python floats.\<close>

type_synonym params = "string \<rightharpoonup> real"

definition getp :: "params \<Rightarrow> string \<Rightarrow> error + real" where
  "getp p key = (case p key of None \<Rightarrow> Inl (KeyError key) | Some v \<Rightarrow> Inr v)"

text \<open>Division of one Python float by another raises on a zero divisor.\<close>

definition float_div :: "real \<Rightarrow> real \<Rightarrow> error + real" where
  "float_div num den = (if den \<noteq> 0 then Inr (num / den) else Inl ZeroDivisionError)"

text \<open>Indexing a Python list or a numpy axis by an integer.\<close>

definition py_index :: "'a list \<Rightarrow> int \<Rightarrow> error + 'a" where
  "py_index xs i =
     (if 0 \<le> i \<and> i < int (length xs) then Inr (xs ! nat i)
      else if i < 0 \<and> - int (length xs) \<le> i then Inr (xs ! nat (int (length xs) + i))
      else Inl IndexError)"

text \<open>
  \<open>np.round(x, decimals=d)\<close>: scale by \<open>10 ** d\<close>, round to the nearest integer with
  ties to the even one (\<open>np.rint\<close>), scale back.
\<close>

definition rint :: "real \<Rightarrow> int" where
  "rint x =
     (let f = \<lfloor>x\<rfloor>; d = x - of_int f
      in if d < 1 / 2 then f
         else if 1 / 2 < d then f + 1
         else if even f then f else f + 1)"

definition np_round :: "nat \<Rightarrow> real \<Rightarrow> real" where
  "np_round d x = of_int (rint (x * 10 ^ d)) / 10 ^ d"

section \<open>The model instance and what it inherits\<close>

text \<open>
  The attributes of a \<open>PowerDing2018\<close> instance that its methods read. They are set
  by the constructor of the base class \<open>PowerSpectrumFit\<close>, which is not among the
  sources; \<open>marg\<close> is the truth value of \<open>self.marg\<close>, \<open>data_dict\<close> gives
  \<open>self.data_dict[data_name]["ks_input"]\<close>.
\<close>

record model =
  isotropic :: bool
  recon :: bool
  recon_type :: string
  marg :: bool
  marg_bias :: bool
  n_poly :: int
  poly_poles :: "int list"
  nmu :: nat
  mu :: vec
  camb_ks :: vec
  camb_smoothing_kernel :: vec
  kvals :: "vec option"
  pksmooth :: "vec option"
  pkratio :: "vec option"
  data_dict :: "string \<rightharpoonup> vec"

text \<open>
  The inherited methods and the scipy routines that \<open>PowerDing2018\<close> calls, taken as
  parameters: \<open>spl ks y x\<close> is \<open>splev(x, splrep(ks, y))\<close> at one point,
  \<open>simps y x\<close> is \<open>integrate.simps(y, x)\<close> on 1-D samples.
\<close>

record ext =
  compute_basic_power_spectrum :: "real \<Rightarrow> vec \<times> vec"
  deal_with_ndata :: "params \<Rightarrow> nat \<Rightarrow> params"
  get_pregen :: "string \<Rightarrow> real \<Rightarrow> real"
  add_three_poly :: "vec \<Rightarrow> vec \<Rightarrow> params \<Rightarrow> vec \<Rightarrow> ndarray \<Rightarrow> error + (ndarray \<times> nd list)"
  add_five_poly :: "vec \<Rightarrow> vec \<Rightarrow> params \<Rightarrow> vec \<Rightarrow> ndarray \<Rightarrow> error + (ndarray \<times> nd list)"
  integrate_mu :: "mat \<Rightarrow> vec \<times> vec \<times> vec"
  get_kprimefac :: "real \<Rightarrow> vec"
  get_muprime :: "real \<Rightarrow> vec"
  simps :: "vec \<Rightarrow> vec \<Rightarrow> real"
  spl :: "vec \<Rightarrow> vec \<Rightarrow> real \<Rightarrow> real"

definition splev_splrep :: "ext \<Rightarrow> vec \<Rightarrow> vec \<Rightarrow> vec \<Rightarrow> vec" where
  "splev_splrep e ks y xs = map (spl e ks y) xs"

definition splev_splrep2 :: "ext \<Rightarrow> vec \<Rightarrow> vec \<Rightarrow> mat \<Rightarrow> mat" where
  "splev_splrep2 e ks y X = mmap (spl e ks y) X"

text \<open>\<open>integrate.simps(Y, x, axis=0)\<close> on a 2-D array with \<open>ncols\<close> columns.\<close>

definition simps_axis0 :: "ext \<Rightarrow> nat \<Rightarrow> mat \<Rightarrow> vec \<Rightarrow> vec" where
  "simps_axis0 e ncols Y x = map (\<lambda>col. simps e col x) (np_transpose ncols Y)"

section \<open>The damping arrays\<close>

text \<open>
  Each getter is decorated with \<open>lru_cache(maxsize=4)\<close>. The decorator is the
  function \<open>lru_call\<close>: the cache is the list of its entries, the most recent first,
  and the key is the tuple of the call's arguments. On a cache whose entries were
  computed by the getter a cached call returns what the getter computes, so the
  evaluation below calls the getters themselves.
\<close>

definition lru_call ::
  "nat \<Rightarrow> ('k \<Rightarrow> 'v) \<Rightarrow> 'k \<Rightarrow> ('k \<times> 'v) list \<Rightarrow> 'v \<times> ('k \<times> 'v) list" where
  "lru_call maxsize f key cache =
     (case map_of cache key of
        Some v \<Rightarrow> (v, (key, v) # filter (\<lambda>kv. fst kv \<noteq> key) cache)
      | None \<Rightarrow> (f key, take maxsize ((key, f key) # cache)))"

definition damp :: "real \<Rightarrow> mat \<Rightarrow> mat" where
  "damp sigma M = mmap (\<lambda>x. exp (- x * sigma)) M"

definition get_damping :: "model \<Rightarrow> ext \<Rightarrow> real \<Rightarrow> real \<Rightarrow> mat" where
  "get_damping m e growth om =
     damp (get_pregen e ''sigma_nl'' om)
       (np_outer (map (\<lambda>u. 1 + (2 + growth) * growth * u) (vsq (mu m))) (vsq (camb_ks m)))"

definition get_damping_dd :: "model \<Rightarrow> ext \<Rightarrow> real \<Rightarrow> real \<Rightarrow> mat" where
  "get_damping_dd m e growth om =
     damp (get_pregen e ''sigma_dd_nl'' om)
       (np_outer (map (\<lambda>u. 1 + (2 + growth) * growth * u) (vsq (mu m))) (vsq (camb_ks m)))"

definition get_damping_sd :: "model \<Rightarrow> ext \<Rightarrow> real \<Rightarrow> real \<Rightarrow> mat" where
  "get_damping_sd m e growth om =
     damp (get_pregen e ''sigma_sd_nl'' om)
       (np_outer (map (\<lambda>u. 1 + growth * u) (vsq (mu m))) (vsq (camb_ks m)))"

definition get_damping_ss :: "model \<Rightarrow> ext \<Rightarrow> real \<Rightarrow> mat" where
  "get_damping_ss m e om =
     damp (get_pregen e ''sigma_ss_nl'' om) (np_tile (vsq (camb_ks m)) (nmu m))"

text \<open>The anisotropic getters choose their wavenumbers by \<open>data_name\<close>.\<close>

definition data_ks :: "model \<Rightarrow> string option \<Rightarrow> error + vec" where
  "data_ks m data_name =
     (case data_name of
        None \<Rightarrow> Inr (camb_ks m)
      | Some name \<Rightarrow>
          (case data_dict m name of None \<Rightarrow> Inl (KeyError name) | Some ks \<Rightarrow> Inr ks))"

definition one_minus_sq :: "vec \<Rightarrow> vec" where
  "one_minus_sq v = map (\<lambda>u. 1 - u) (vsq v)"

definition get_damping_aniso_par ::
  "model \<Rightarrow> ext \<Rightarrow> real \<Rightarrow> real \<Rightarrow> string option \<Rightarrow> error + mat" where
  "get_damping_aniso_par m e growth om data_name =
     bindE (data_ks m data_name) (\<lambda>ks.
       Inr (damp (get_pregen e ''sigma_nl'' om)
         (np_outer (map (\<lambda>k2. (1 + (2 + growth) * growth) * k2) (vsq ks)) (vsq (mu m)))))"

definition get_damping_aniso_perp ::
  "model \<Rightarrow> ext \<Rightarrow> real \<Rightarrow> string option \<Rightarrow> error + mat" where
  "get_damping_aniso_perp m e om data_name =
     bindE (data_ks m data_name) (\<lambda>ks.
       Inr (damp (get_pregen e ''sigma_nl'' om) (np_outer (vsq ks) (one_minus_sq (mu m)))))"

definition get_damping_aniso_dd_par ::
  "model \<Rightarrow> ext \<Rightarrow> real \<Rightarrow> real \<Rightarrow> string option \<Rightarrow> error + mat" where
  "get_damping_aniso_dd_par m e growth om data_name =
     bindE (data_ks m data_name) (\<lambda>ks.
       Inr (damp (get_pregen e ''sigma_dd_nl'' om)
         (np_outer (map (\<lambda>k2. (1 + (2 + growth) * growth) * k2) (vsq ks)) (vsq (mu m)))))"

definition get_damping_aniso_dd_perp ::
  "model \<Rightarrow> ext \<Rightarrow> real \<Rightarrow> string option \<Rightarrow> error + mat" where
  "get_damping_aniso_dd_perp m e om data_name =
     bindE (data_ks m data_name) (\<lambda>ks.
       Inr (damp (get_pregen e ''sigma_dd_nl'' om) (np_outer (vsq ks) (one_minus_sq (mu m)))))"

definition get_damping_aniso_sd_par ::
  "model \<Rightarrow> ext \<Rightarrow> real \<Rightarrow> real \<Rightarrow> string option \<Rightarrow> error + mat" where
  "get_damping_aniso_sd_par m e growth om data_name =
     bindE (data_ks m data_name) (\<lambda>ks.
       Inr (damp (get_pregen e ''sigma_sd_nl'' om)
         (np_outer (map (\<lambda>k2. (1 + growth) * k2) (vsq ks)) (vsq (mu m)))))"

definition get_damping_aniso_sd_perp ::
  "model \<Rightarrow> ext \<Rightarrow> real \<Rightarrow> string option \<Rightarrow> error + mat" where
  "get_damping_aniso_sd_perp m e om data_name =
     bindE (data_ks m data_name) (\<lambda>ks.
       Inr (damp (get_pregen e ''sigma_sd_nl'' om) (np_outer (vsq ks) (one_minus_sq (mu m)))))"

definition get_damping_aniso_ss_par ::
  "model \<Rightarrow> ext \<Rightarrow> real \<Rightarrow> string option \<Rightarrow> error + mat" where
  "get_damping_aniso_ss_par m e om data_name =
     bindE (data_ks m data_name) (\<lambda>ks.
       Inr (damp (get_pregen e ''sigma_ss_nl'' om) (np_outer (vsq ks) (vsq (mu m)))))"

definition get_damping_aniso_ss_perp ::
  "model \<Rightarrow> ext \<Rightarrow> real \<Rightarrow> string option \<Rightarrow> error + mat" where
  "get_damping_aniso_ss_perp m e om data_name =
     bindE (data_ks m data_name) (\<lambda>ks.
       Inr (damp (get_pregen e ''sigma_ss_nl'' om) (np_outer (vsq ks) (one_minus_sq (mu m)))))"

section \<open>compute_power_spectrum\<close>

text \<open>
  The basic components (lines 204 to 209): the stored \<open>kvals\<close>, \<open>pksmooth\<close> and
  \<open>pkratio\<close> when all three are set, the provider's grid and
  \<open>compute_basic_power_spectrum(p["om"])\<close> otherwise.
\<close>

definition basic_components :: "model \<Rightarrow> ext \<Rightarrow> params \<Rightarrow> error + (vec \<times> vec \<times> vec)" where
  "basic_components m e p =
     (case (kvals m, pksmooth m, pkratio m) of
        (Some kv, Some ps, Some pr) \<Rightarrow> Inr (kv, ps, pr)
      | _ \<Rightarrow>
          bindE (getp p ''om'') (\<lambda>om.
            Inr (camb_ks m, fst (compute_basic_power_spectrum e om),
                 snd (compute_basic_power_spectrum e om))))"

definition msq :: "mat \<Rightarrow> mat" where
  "msq M = mmap (\<lambda>x. x ^ 2) M"

text \<open>\<open>0.5 * p["b_delta"] / p["b"]\<close>, a quotient of Python floats.\<close>

definition bdelta_coeff :: "params \<Rightarrow> real \<Rightarrow> error + real" where
  "bdelta_coeff p b = bindE (getp p ''b_delta'') (\<lambda>b_delta. float_div (0.5 * b_delta) b)"

text \<open>
  "Lets round some things for the sake of numerical speed" (lines 229 and 230, and
  again 281 and 282): the pair \<open>(growth, om)\<close> that the damping getters are
  called with, and so the key of their caches.
\<close>

definition rounded_growth_om :: "params \<Rightarrow> error + (real \<times> real)" where
  "rounded_growth_om p =
     bindE (getp p ''om'') (\<lambda>om_p.
     bindE (getp p ''b'') (\<lambda>b.
     bindE (getp p ''beta'') (\<lambda>beta.
       Inr (np_round 5 (b * beta), np_round 5 om_p))))"

text \<open>
  The propagator of the isotropic path when \<open>smooth\<close> is false (lines 228 to 252);
  \<open>b\<close> is \<open>p["b"]\<close>, read at line 223.
\<close>

definition iso_propagator :: "model \<Rightarrow> ext \<Rightarrow> params \<Rightarrow> vec \<Rightarrow> real \<Rightarrow> error + mat" where
  "iso_propagator m e p ks b =
     bindE (rounded_growth_om p) (\<lambda>go.
     bindE (getp p ''beta'') (\<lambda>beta.
       let growth = fst go;
           om = snd go
       in
         if recon m then
           (let damping_dd = get_damping_dd m e growth om;
                damping_sd = get_damping_sd m e growth om;
                damping_ss = get_damping_ss m e om;
                smooth_prefac = np_tile (map (\<lambda>s. s / b) (camb_smoothing_kernel m)) (nmu m)
            in bindE (bdelta_coeff p b) (\<lambda>c.
                 let bdelta_prefac = np_tile (map (\<lambda>k2. c * k2) (vsq ks)) (nmu m);
                     kaiser_prefac =
                       mzip (+)
                         (mzip (+) (mmap (\<lambda>x. 1 - x) smooth_prefac)
                            (np_outer (map (\<lambda>u. beta * u) (vsq (mu m)))
                               (map (\<lambda>s. 1 - s) (camb_smoothing_kernel m))))
                         bdelta_prefac
                 in Inr (mzip (+)
                      (mzip (+)
                         (mzip (*) (mzip (-) (msq kaiser_prefac) (msq bdelta_prefac)) damping_dd)
                         (mzip (*) (mzip (*) (mmap (\<lambda>x. 2 * x) kaiser_prefac) smooth_prefac)
                            damping_sd))
                      (mzip (*) (msq smooth_prefac) damping_ss))))
         else
           (let damping = get_damping m e growth om
            in bindE (bdelta_coeff p b) (\<lambda>c.
                 let bdelta_prefac = np_tile (map (\<lambda>k2. c * k2) (vsq ks)) (nmu m);
                     kaiser_prefac =
                       mzip (+)
                         (mmap (\<lambda>x. 1 + x)
                            (np_transpose (length (mu m))
                               (np_tile (map (\<lambda>u. beta * u) (vsq (mu m))) (length ks))))
                         bdelta_prefac
                 in Inr (mzip (*) (mzip (-) (msq kaiser_prefac) (msq bdelta_prefac)) damping)))))"

text \<open>\<open>1.0 + pk_ratio * propagator\<close>, with \<open>pk_ratio\<close> broadcast along the rows.\<close>

definition wiggle :: "vec \<Rightarrow> ndarray \<Rightarrow> ndarray" where
  "wiggle pk_ratio propagator =
     (case propagator of
        A1 v \<Rightarrow> A1 (map2 (\<lambda>r x. 1 + r * x) pk_ratio v)
      | A2 P \<Rightarrow> A2 (map (\<lambda>row. map2 (\<lambda>r x. 1 + r * x) pk_ratio row) P))"

definition times_nd :: "mat \<Rightarrow> ndarray \<Rightarrow> mat" where
  "times_nd M W = (case W of A1 v \<Rightarrow> mrow (*) M v | A2 N \<Rightarrow> mzip (*) M N)"

definition plus_nd :: "mat \<Rightarrow> ndarray \<Rightarrow> mat" where
  "plus_nd M S = (case S of A1 v \<Rightarrow> mrow (+) M v | A2 N \<Rightarrow> mzip (+) M N)"

text \<open>
  \<open>integrate.simps(W, mu, axis=0)\<close> at line 257. It is reached only when \<open>smooth\<close>
  is false, where the propagator and so \<open>W\<close> are 2-D; on a 1-D array the integral is
  one number.
\<close>

definition simps_nd :: "ext \<Rightarrow> nat \<Rightarrow> ndarray \<Rightarrow> vec \<Rightarrow> vec" where
  "simps_nd e ncols W x =
     (case W of A1 v \<Rightarrow> [simps e v x] | A2 Y \<Rightarrow> simps_axis0 e ncols Y x)"

definition add_poly ::
  "model \<Rightarrow> ext \<Rightarrow> vec \<Rightarrow> vec \<Rightarrow> params \<Rightarrow> vec \<Rightarrow> ndarray \<Rightarrow> error + (ndarray \<times> nd list)" where
  "add_poly m e ks k p prefac pk =
     (if n_poly m = 3 then add_three_poly e ks k p prefac pk
      else add_five_poly e ks k p prefac pk)"

type_synonym spectrum = "ndarray \<times> vec list \<times> nd list option"

text \<open>The isotropic path (lines 217 to 272).\<close>

definition compute_iso ::
  "model \<Rightarrow> ext \<Rightarrow> vec \<Rightarrow> params \<Rightarrow> bool \<Rightarrow> bool \<Rightarrow> vec \<Rightarrow> vec \<Rightarrow> vec \<Rightarrow> error + spectrum" where
  "compute_iso m e k p smooth for_corr ks pk_smooth_lin pk_ratio =
     bindE (if for_corr then Inr k
            else bindE (getp p ''alpha'') (\<lambda>alpha. Inr (map (\<lambda>x. x / alpha) k))) (\<lambda>kprime.
     bindE (getp p ''sigma_s'') (\<lambda>sigma_s.
     bindE (getp p ''b'') (\<lambda>b.
       let fog = mmap (\<lambda>x. 1 / (1 + x) ^ 2)
                   (np_outer (vsq (mu m)) (map (\<lambda>k2. k2 * sigma_s ^ 2 / 2) (vsq ks)));
           pk_smooth = map (\<lambda>row. map2 (*) (map (\<lambda>s. b ^ 2 * s) pk_smooth_lin) row) fog
       in
       bindE (if smooth then Inr (A1 (np_zeros (length ks)))
              else bindE (iso_propagator m e p ks b) (\<lambda>P. Inr (A2 P))) (\<lambda>propagator.
         let prefac =
               (if smooth then np_ones (length kprime)
                else splev_splrep e ks
                       (simps_nd e (length ks) (wiggle pk_ratio propagator) (mu m)) kprime)
         in
         bindE (if for_corr then
                  Inr (None,
                       simps_axis0 e (length ks)
                         (times_nd pk_smooth (wiggle pk_ratio propagator)) (mu m))
                else
                  bindE (add_poly m e ks k p prefac (A1 (np_zeros (length k)))) (\<lambda>sp.
                    Inr (Some (if marg m then drop 1 (snd sp) else snd sp),
                         simps_axis0 e (length ks)
                           (times_nd (plus_nd pk_smooth (fst sp)) (wiggle pk_ratio propagator))
                           (mu m)))) (\<lambda>res.
           Inr (A1 kprime, [splev_splrep e ks (snd res) kprime], fst res))))))"

text \<open>
  The anisotropic path. \<open>pow_pair\<close> is \<open>par ** power_par * perp ** power_perp\<close>;
  the bases are exponentials, so the float power is \<open>powr\<close>.
\<close>

definition pow_pair :: "mat \<Rightarrow> mat \<Rightarrow> real \<Rightarrow> real \<Rightarrow> mat" where
  "pow_pair par perp power_par power_perp =
     mzip (*) (mmap (\<lambda>x. x powr power_par) par) (mmap (\<lambda>x. x powr power_perp) perp)"

text \<open>Lines 293 and 294: the two exponents of the Alcock-Paczynski distortion.\<close>

definition power_par :: "real \<Rightarrow> real \<Rightarrow> real" where
  "power_par alpha epsilon = 1 / (alpha ^ 2 * (1 + epsilon) ^ 4)"

definition power_perp :: "real \<Rightarrow> real \<Rightarrow> real" where
  "power_perp alpha epsilon = (1 + epsilon) ^ 2 / alpha ^ 2"

text \<open>The three reconstruction dampings of lines 297 to 308, in the order of the calls.\<close>

definition aniso_recon_dampings ::
  "model \<Rightarrow> ext \<Rightarrow> real \<Rightarrow> real \<Rightarrow> string option \<Rightarrow> real \<Rightarrow> real \<Rightarrow> error + (mat \<times> mat \<times> mat)" where
  "aniso_recon_dampings m e growth om data_name alpha epsilon =
     bindE (get_damping_aniso_dd_par m e growth om data_name) (\<lambda>dd_par.
     bindE (get_damping_aniso_dd_perp m e om data_name) (\<lambda>dd_perp.
     bindE (get_damping_aniso_sd_par m e growth om data_name) (\<lambda>sd_par.
     bindE (get_damping_aniso_sd_perp m e om data_name) (\<lambda>sd_perp.
     bindE (get_damping_aniso_ss_par m e om data_name) (\<lambda>ss_par.
     bindE (get_damping_aniso_ss_perp m e om data_name) (\<lambda>ss_perp.
       Inr (pow_pair dd_par dd_perp (power_par alpha epsilon) (power_perp alpha epsilon),
            pow_pair sd_par sd_perp (power_par alpha epsilon) (power_perp alpha epsilon),
            pow_pair ss_par ss_perp (power_par alpha epsilon) (power_perp alpha epsilon))))))))"

text \<open>The damping of lines 318 to 321, without reconstruction.\<close>

definition aniso_damping ::
  "model \<Rightarrow> ext \<Rightarrow> real \<Rightarrow> real \<Rightarrow> string option \<Rightarrow> real \<Rightarrow> real \<Rightarrow> error + mat" where
  "aniso_damping m e growth om data_name alpha epsilon =
     bindE (get_damping_aniso_par m e growth om data_name) (\<lambda>par.
     bindE (get_damping_aniso_perp m e om data_name) (\<lambda>perp.
       Inr (pow_pair par perp (power_par alpha epsilon) (power_perp alpha epsilon))))"

text \<open>The propagator of the anisotropic path when \<open>smooth\<close> is false (lines 293 to 324).\<close>

definition aniso_propagator ::
  "model \<Rightarrow> ext \<Rightarrow> params \<Rightarrow> string option \<Rightarrow> real \<Rightarrow> mat \<Rightarrow> mat \<Rightarrow> mat \<Rightarrow> real \<Rightarrow> real \<Rightarrow> real
     \<Rightarrow> error + mat" where
  "aniso_propagator m e p data_name epsilon kprime sprime kaiser_prefac b growth om =
     bindE (getp p ''alpha'') (\<lambda>alpha.
       bindE (getp p ''b_delta'') (\<lambda>b_delta.
         let bdelta_prefac =
               mzip (*) (mmap (\<lambda>x. 0.5 * b_delta / x) (mmap (\<lambda>x. b * x) kaiser_prefac))
                 (msq kprime)
         in
           if recon m then
             bindE (aniso_recon_dampings m e growth om data_name alpha epsilon) (\<lambda>d.
               let damping_dd = fst d;
                   damping_sd = fst (snd d);
                   damping_ss = snd (snd d);
                   smooth_prefac = mzip (/) sprime (mmap (\<lambda>x. b * x) kaiser_prefac);
                   t = mzip (-) (mmap (\<lambda>x. 1 + x) bdelta_prefac) smooth_prefac
               in Inr (mzip (+)
                    (mzip (+)
                       (mzip (*) (mzip (-) (msq t) (msq bdelta_prefac)) damping_dd)
                       (mzip (*) (mzip (*) (mmap (\<lambda>x. 2 * x) t) smooth_prefac) damping_sd))
                    (mzip (*) (msq smooth_prefac) damping_ss)))
           else
             bindE (aniso_damping m e growth om data_name alpha epsilon) (\<lambda>damping.
               Inr (mzip (*) (mmap (\<lambda>x. 1 + 2 * x) bdelta_prefac) damping))))"

text \<open>
  \<open>pk[pole] += shape[pole]\<close> for every pole of \<open>poly_poles\<close> (lines 345 and 346):
  both subscripts follow Python's indexing, and a 1-D \<open>shape\<close> gives a number that
  is added to every entry.
\<close>

definition py_pos :: "'a list \<Rightarrow> int \<Rightarrow> nat" where
  "py_pos xs i = nat (if i < 0 then int (length xs) + i else i)"

definition shape_add :: "ndarray \<Rightarrow> int \<Rightarrow> vec \<Rightarrow> error + vec" where
  "shape_add shape pole cur =
     (case shape of
        A1 v \<Rightarrow> bindE (py_index v pole) (\<lambda>x. Inr (map (\<lambda>y. y + x) cur))
      | A2 rows \<Rightarrow> bindE (py_index rows pole) (\<lambda>r. Inr (map2 (+) cur r)))"

fun add_shape :: "int list \<Rightarrow> ndarray \<Rightarrow> vec list \<Rightarrow> error + vec list" where
  "add_shape [] shape pk = Inr pk"
| "add_shape (pole # poles) shape pk =
     (case py_index pk pole of
        Inl err \<Rightarrow> Inl err
      | Inr cur \<Rightarrow>
          (case shape_add shape pole cur of
             Inl err \<Rightarrow> Inl err
           | Inr new \<Rightarrow> add_shape poles shape (pk[py_pos pk pole := new])))"

text \<open>
  Lines 328 and 331: \<open>pk0, pk2, pk4 = self.integrate_mu(pk2d)\<close> and the list
  \<open>[pk0, zeros, pk2, zeros, pk4, zeros]\<close>.
\<close>

definition six_poles :: "ext \<Rightarrow> vec \<Rightarrow> mat \<Rightarrow> vec list" where
  "six_poles e k pk2d =
     [fst (integrate_mu e pk2d), np_zeros (length k), fst (snd (integrate_mu e pk2d)),
      np_zeros (length k), snd (snd (integrate_mu e pk2d)), np_zeros (length k)]"

text \<open>
  The anisotropic path (lines 275 to 346). Without reconstruction \<open>sprime\<close> is the
  number 0.0, broadcast here to the shape of \<open>kprime\<close>.
\<close>

definition compute_aniso ::
  "model \<Rightarrow> ext \<Rightarrow> vec \<Rightarrow> params \<Rightarrow> bool \<Rightarrow> bool \<Rightarrow> string option \<Rightarrow> vec \<Rightarrow> vec \<Rightarrow> vec
     \<Rightarrow> error + spectrum" where
  "compute_aniso m e k p smooth for_corr data_name ks pk_smooth_lin pk_ratio =
     bindE (getp p ''epsilon'') (\<lambda>eps_p.
       let epsilon = np_round 5 eps_p in
     bindE (if for_corr then Inr (np_transpose (length k) (np_tile k (nmu m)))
            else bindE (getp p ''alpha'') (\<lambda>alpha.
                   Inr (np_outer (map (\<lambda>x. x / alpha) k) (get_kprimefac e epsilon)))) (\<lambda>kprime.
       let muprime = get_muprime e epsilon in
     bindE (getp p ''sigma_s'') (\<lambda>sigma_s.
       let fog = mmap (\<lambda>x. 1 / (1 + x * sigma_s ^ 2 / 2) ^ 2)
                   (map (\<lambda>row. map2 (*) (vsq muprime) row) (msq kprime))
       in
     bindE (rounded_growth_om p) (\<lambda>go.
     bindE (getp p ''beta'') (\<lambda>beta.
     bindE (getp p ''b'') (\<lambda>b.
       let growth = fst go;
           om = snd go;
           sprime = (if recon m then splev_splrep2 e ks (camb_smoothing_kernel m) kprime
                     else mmap (\<lambda>x. 0) kprime);
           kaiser_prefac =
             mmap (\<lambda>x. 1 + x)
               (map (\<lambda>row. map2 (*) (map (\<lambda>u. beta * u) (vsq muprime)) row)
                  (mmap (\<lambda>s. 1 - s) sprime));
           pk_smooth =
             mzip (*)
               (mzip (*) (mmap (\<lambda>x. b ^ 2 * x) (msq kaiser_prefac))
                  (splev_splrep2 e ks pk_smooth_lin kprime))
               fog
       in
     bindE (if smooth then Inr pk_smooth
            else bindE (aniso_propagator m e p data_name epsilon kprime sprime kaiser_prefac
                          b growth om) (\<lambda>propagator.
                   Inr (mzip (*) pk_smooth
                          (mmap (\<lambda>x. 1 + x)
                             (mzip (*) (splev_splrep2 e ks pk_ratio kprime) propagator))))) (\<lambda>pk2d.
       let pk = six_poles e k pk2d
       in
         if for_corr then Inr (A1 k, pk, None)
         else
           bindE (add_poly m e k k p (np_ones (length k)) (A2 pk)) (\<lambda>sp.
             if marg m then Inr (A2 kprime, pk, Some (drop 1 (snd sp)))
             else bindE (add_shape (poly_poles m) (fst sp) pk) (\<lambda>pk'.
                    Inr (A2 kprime, pk', Some (snd sp)))))))))))"

text \<open>\<open>PowerDing2018.compute_power_spectrum(k, p, smooth, for_corr, data_name)\<close>.\<close>

definition compute_power_spectrum ::
  "model \<Rightarrow> ext \<Rightarrow> vec \<Rightarrow> params \<Rightarrow> bool \<Rightarrow> bool \<Rightarrow> string option \<Rightarrow> error + spectrum" where
  "compute_power_spectrum m e k p smooth for_corr data_name =
     bindE (basic_components m e p) (\<lambda>c.
       let ks = fst c;
           pk_smooth_lin = fst (snd c);
           pk_ratio = snd (snd c);
           p1 = (if \<not> for_corr \<and> p ''b'' = None then deal_with_ndata e p 0 else p)
       in
         if isotropic m then compute_iso m e k p1 smooth for_corr ks pk_smooth_lin pk_ratio
         else compute_aniso m e k p1 smooth for_corr data_name ks pk_smooth_lin pk_ratio)"

section \<open>PowerDing2018.__init__\<close>

text \<open>The arguments of the constructor, with the defaults of its signature in mind.\<close>

record ding_args =
  a_name :: string
  a_fix_params :: "string list"
  a_smooth_type :: "string option"
  a_recon :: "string option"
  a_postprocess :: "string option"
  a_smooth :: bool
  a_correction :: "string option"
  a_isotropic :: bool
  a_poly_poles :: "int list"
  a_marg :: "string option"
  a_n_poly :: int
  a_n_data :: nat
  a_data_share_bias :: bool
  a_data_share_poly :: bool

text \<open>
  \<open>super_init\<close> is \<open>PowerSpectrumFit.__init__\<close> and \<open>set_marg\<close> the inherited
  \<open>self.set_marg\<close>; neither is among the sources. The base constructor runs on an
  object whose \<open>marg_bias\<close> is already False (line 38), its first argument here,
  and it is the one that records \<open>recon_type\<close>. No exception is caught.
\<close>

definition power_ding2018_init ::
  "(bool \<Rightarrow> ding_args \<Rightarrow> error + model) \<Rightarrow>
   (string list \<Rightarrow> int list \<Rightarrow> int \<Rightarrow> model \<Rightarrow> error + model) \<Rightarrow>
   ding_args \<Rightarrow> error + model" where
  "power_ding2018_init super_init set_marg a =
     (if a_n_poly a \<notin> set [0, 3, 5] then
        Inl (NotImplementedError
          ''Models require n_poly to be 0, 3 or 5 polynomial terms per multipole'')
      else
        bindE (super_init False a) (\<lambda>self.
          if recon_type self = ''sym'' \<or> recon_type self = ''ani'' then
            Inl (NotImplementedError
              ''Symmetric and Anisotropic reconstruction not yet available for Ding2018 model'')
          else set_marg (a_fix_params a) (a_poly_poles a) (a_n_poly a) self))"

section \<open>CorrSeo2016\<close>

text \<open>\<open>str\<close> of a Python int, for the f-strings that build parameter names.\<close>

fun str_nat :: "nat \<Rightarrow> string" where
  "str_nat n =
     (if n < 10 then [''0123456789'' ! n]
      else str_nat (n div 10) @ [''0123456789'' ! (n mod 10)])"

definition str_int :: "int \<Rightarrow> string" where
  "str_int i = (if i < 0 then ''-'' @ str_nat (nat (- i)) else str_nat (nat i))"

text \<open>
  A declared parameter: name, display label, lower bound, upper bound, default value.
\<close>

record param =
  p_name :: string
  p_label :: string
  p_min :: real
  p_max :: real
  p_default :: real

record corr_args =
  c_name :: string
  c_fix_params :: "string list"
  c_smooth_type :: "string option"
  c_recon :: "string option"
  c_smooth :: bool
  c_correction :: "string option"
  c_isotropic :: bool
  c_poly_poles :: "int list"
  c_marg :: "string option"

text \<open>What \<open>CorrSeo2016.__init__\<close> hands to the base constructor (lines 34 to 43).\<close>

record base_args =
  b_name :: string
  b_fix_params :: "string list"
  b_smooth_type :: "string option"
  b_smooth :: bool
  b_correction :: "string option"
  b_isotropic :: bool
  b_poly_poles :: "int list"
  b_marg :: "string option"

text \<open>What it hands to \<open>PowerSeo2016\<close> (lines 44 to 52).\<close>

record parent_args =
  q_fix_params :: "string list"
  q_smooth_type :: "string option"
  q_recon :: "string option"
  q_smooth :: bool
  q_correction :: "string option"
  q_isotropic :: bool
  q_marg :: "string option"

text \<open>
  The attributes of a \<open>CorrSeo2016\<close> instance; \<open>cm_marg\<close> is the truth value of
  \<open>self.marg\<close>.
\<close>

record corr_model =
  cm_recon_smoothing_scale :: "real option"
  cm_poly_poles :: "int list"
  cm_marg :: bool
  cm_params :: "param list"
  cm_parent :: "model option"

text \<open>
  Modelled from the spec: the inherited \<open>add_param\<close> and \<open>set_default\<close> of the
  model base class, which are not among the sources. Section 6 of the specification
  gives each declared parameter a name, a display label, a lower bound, an upper bound
  and a default value: \<open>add_param\<close> declares one more parameter, \<open>set_default\<close>
  replaces the default value of the parameter of that name.
\<close>

definition add_param :: "string \<Rightarrow> string \<Rightarrow> real \<Rightarrow> real \<Rightarrow> real \<Rightarrow> corr_model \<Rightarrow> corr_model" where
  "add_param name label lo hi dflt self =
     self\<lparr>cm_params := cm_params self @
       [\<lparr>p_name = name, p_label = label, p_min = lo, p_max = hi, p_default = dflt\<rparr>]\<rparr>"

definition set_default :: "string \<Rightarrow> real \<Rightarrow> corr_model \<Rightarrow> corr_model" where
  "set_default name dflt self =
     self\<lparr>cm_params :=
       map (\<lambda>q. if p_name q = name then q\<lparr>p_default := dflt\<rparr> else q) (cm_params self)\<rparr>"

text \<open>The names \<open>a{pole}_1\<close>, \<open>a{pole}_2\<close>, \<open>a{pole}_3\<close> of one multipole.\<close>

definition poly_name :: "int \<Rightarrow> nat \<Rightarrow> string" where
  "poly_name pole order = ''a{'' @ str_int pole @ ''}_'' @ str_nat order"

definition poly_names :: "int \<Rightarrow> string list" where
  "poly_names pole = [poly_name pole 1, poly_name pole 2, poly_name pole 3]"

text \<open>Lines 28 to 33: the poles and the fixed parameters that the constructor settles on.\<close>

definition init_poly_poles :: "corr_args \<Rightarrow> int list" where
  "init_poly_poles a = (if c_isotropic a then [0] else c_poly_poles a)"

definition init_fix_params :: "corr_args \<Rightarrow> string list" where
  "init_fix_params a =
     (if c_marg a \<noteq> None then c_fix_params a @ concat (map poly_names (init_poly_poles a))
      else c_fix_params a)"

definition init_base_args :: "corr_args \<Rightarrow> base_args" where
  "init_base_args a =
     \<lparr>b_name = c_name a, b_fix_params = init_fix_params a, b_smooth_type = c_smooth_type a,
      b_smooth = c_smooth a, b_correction = c_correction a, b_isotropic = c_isotropic a,
      b_poly_poles = init_poly_poles a, b_marg = c_marg a\<rparr>"

definition init_parent_args :: "corr_args \<Rightarrow> parent_args" where
  "init_parent_args a =
     \<lparr>q_fix_params = init_fix_params a, q_smooth_type = c_smooth_type a, q_recon = c_recon a,
      q_smooth = c_smooth a, q_correction = c_correction a, q_isotropic = c_isotropic a,
      q_marg = c_marg a\<rparr>"

text \<open>Lines 53 to 57: the three defaults of every pole of \<open>self.poly_poles\<close>.\<close>

definition set_pole_defaults :: "int \<Rightarrow> corr_model \<Rightarrow> corr_model" where
  "set_pole_defaults pole self =
     set_default (poly_name pole 3) 0
       (set_default (poly_name pole 2) 0 (set_default (poly_name pole 1) 0 self))"

text \<open>
  \<open>CorrSeo2016.__init__\<close>. \<open>base_init\<close> is \<open>CorrelationFunctionFit.__init__\<close>,
  run on an object whose \<open>recon_smoothing_scale\<close> is already None (line 27), its
  first argument here; \<open>power_seo2016\<close> is the constructor of \<open>PowerSeo2016\<close>.
  Neither is among the sources.
\<close>

definition corr_seo2016_init ::
  "(real option \<Rightarrow> base_args \<Rightarrow> error + corr_model) \<Rightarrow> (parent_args \<Rightarrow> error + model) \<Rightarrow>
   corr_args \<Rightarrow> error + corr_model" where
  "corr_seo2016_init base_init power_seo2016 a =
     bindE (base_init None (init_base_args a)) (\<lambda>self.
     bindE (power_seo2016 (init_parent_args a)) (\<lambda>parent.
       let self1 = self\<lparr>cm_parent := Some parent\<rparr>
       in Inr (if cm_marg self1 then fold set_pole_defaults (cm_poly_poles self1) self1
               else self1)))"

text \<open>
  \<open>CorrSeo2016.declare_parameters\<close>; \<open>super_declare\<close> is the inherited
  \<open>declare_parameters\<close>. The labels are the source's raw strings.
\<close>

definition declare_pole :: "int \<Rightarrow> corr_model \<Rightarrow> corr_model" where
  "declare_pole pole self =
     add_param (poly_name pole 3) (''$a_{'' @ str_int pole @ '',3}$'') (- 0.2) 0.2 0
       (add_param (poly_name pole 2) (''$a_{'' @ str_int pole @ '',2}$'') (- 2) 2 0
          (add_param (poly_name pole 1) (''$a_{'' @ str_int pole @ '',1}$'') (- 100) 100 0
             self))"

definition declare_parameters :: "(corr_model \<Rightarrow> corr_model) \<Rightarrow> corr_model \<Rightarrow> corr_model" where
  "declare_parameters super_declare self =
     (let s0 = super_declare self;
          s1 = add_param ''b'' ''$b$'' 0.1 10 1 s0;
          s2 = add_param ''beta'' (''$'' @ [CHR 0x5C] @ ''beta$'') 0.01 4 0.5 s1;
          s3 = add_param ''sigma_s'' (''$'' @ [CHR 0x5C] @ ''Sigma_s$'') 0.01 10 5 s2
      in fold declare_pole (cm_poly_poles s3) s3)"

section \<open>A small instance\<close>

text \<open>
  A model on the angular grid 0, 1 and the wavenumbers 1, 2, with simple stand-ins for
  the inherited and scipy routines; the theorems below are applied to it.
\<close>

definition demo_model :: model where
  "demo_model =
     \<lparr>isotropic = True, recon = True, recon_type = ''iso'', marg = True, marg_bias = False,
      n_poly = 5, poly_poles = [0], nmu = 2, mu = [0, 1], camb_ks = [1, 2],
      camb_smoothing_kernel = [1 / 2, 1 / 4], kvals = None, pksmooth = None, pkratio = None,
      data_dict = Map.empty\<rparr>"

definition demo_poly :: "vec \<Rightarrow> vec \<Rightarrow> params \<Rightarrow> vec \<Rightarrow> ndarray \<Rightarrow> error + (ndarray \<times> nd list)" where
  "demo_poly ks k p prefac pk =
     (case pk of
        A1 v \<Rightarrow> Inr (A1 (np_zeros (length ks)), [Arr (map Scalar prefac), Arr (map Scalar v)])
      | A2 rows \<Rightarrow>
          Inr (A2 (map (\<lambda>r. np_ones (length k)) rows), [Arr (map Scalar prefac), Arr []]))"

definition demo_ext :: ext where
  "demo_ext =
     \<lparr>compute_basic_power_spectrum = (\<lambda>om. ([3, 4], [1, 2])),
      deal_with_ndata = (\<lambda>p i. p),
      get_pregen = (\<lambda>name om. 1),
      add_three_poly = demo_poly,
      add_five_poly = demo_poly,
      integrate_mu = (\<lambda>M. (map sum_list M, map (\<lambda>r. 2 * sum_list r) M, map (\<lambda>r. 3 * sum_list r) M)),
      get_kprimefac = (\<lambda>eps. [1, 1]),
      get_muprime = (\<lambda>eps. [0, 1]),
      simps = (\<lambda>y x. sum_list y),
      spl = (\<lambda>ks y x. x)\<rparr>"

definition demo_params :: params where
  "demo_params =
     [''om'' \<mapsto> 0.31, ''alpha'' \<mapsto> 1, ''epsilon'' \<mapsto> 0, ''sigma_s'' \<mapsto> 1, ''b'' \<mapsto> 1,
      ''beta'' \<mapsto> 1 / 2, ''b_delta'' \<mapsto> 0]"

definition demo_base_init :: "real option \<Rightarrow> base_args \<Rightarrow> error + corr_model" where
  "demo_base_init scale a =
     Inr (declare_parameters (\<lambda>s. s)
       \<lparr>cm_recon_smoothing_scale = scale, cm_poly_poles = b_poly_poles a,
        cm_marg = (b_marg a \<noteq> None), cm_params = [], cm_parent = None\<rparr>)"

definition demo_corr_args :: corr_args where
  "demo_corr_args =
     \<lparr>c_name = ''Corr Seo 2016'', c_fix_params = [''om'', ''beta''], c_smooth_type = None,
      c_recon = Some ''iso'', c_smooth = False, c_correction = None, c_isotropic = True,
      c_poly_poles = [0, 2], c_marg = Some ''full''\<rparr>"

definition demo_ding_args :: ding_args where
  "demo_ding_args =
     \<lparr>a_name = ''Pk Ding 2018'', a_fix_params = [''om'', ''beta''], a_smooth_type = None,
      a_recon = Some ''sym'', a_postprocess = None, a_smooth = False, a_correction = None,
      a_isotropic = True, a_poly_poles = [0, 2], a_marg = None, a_n_poly = 5, a_n_data = 1,
      a_data_share_bias = False, a_data_share_poly = False\<rparr>"

definition demo_super_init :: "bool \<Rightarrow> ding_args \<Rightarrow> error + model" where
  "demo_super_init mb a =
     Inr (demo_model\<lparr>marg_bias := mb, isotropic := a_isotropic a, n_poly := a_n_poly a,
       poly_poles := a_poly_poles a, marg := (a_marg a \<noteq> None),
       recon := (a_recon a \<noteq> None),
       recon_type := (case a_recon a of None \<Rightarrow> ''None'' | Some r \<Rightarrow> r)\<rparr>)"

section \<open>The broadband prediction, as the specification words it\<close>

text \<open>
  The smooth-spectrum term of the isotropic model in the words of the specification: at
  the angle \<open>mu\<close> and the wavenumber \<open>k\<close> it is the bias squared times the smooth
  linear spectrum times the Fingers-of-God factor
  \<open>(1 + mu\<^sup>2 k\<^sup>2 sigma_s\<^sup>2 / 2)\<^sup>-\<^sup>2\<close>. It is compared below with what
  \<open>compute_power_spectrum\<close> computes when \<open>smooth\<close> is true.
\<close>

definition fingers_of_god :: "real \<Rightarrow> real \<Rightarrow> real \<Rightarrow> real" where
  "fingers_of_god sigma_s u k = 1 / (1 + u ^ 2 * k ^ 2 * sigma_s ^ 2 / 2) ^ 2"

definition smooth_term :: "vec \<Rightarrow> vec \<Rightarrow> vec \<Rightarrow> real \<Rightarrow> real \<Rightarrow> mat" where
  "smooth_term mus ks pk_smooth_lin b sigma_s =
     map (\<lambda>u. map2 (\<lambda>k pl. b ^ 2 * pl * fingers_of_god sigma_s u k) ks pk_smooth_lin) mus"

text \<open>
  The pure broadband prediction of the isotropic model: the smooth-spectrum term, plus
  the polynomial shape when polynomial terms are injected, integrated over the angle
  and interpolated at the output wavenumbers. Neither the wiggle ratio nor a damping
  array enters it.
\<close>

definition broadband_iso ::
  "model \<Rightarrow> ext \<Rightarrow> vec \<Rightarrow> params \<Rightarrow> bool \<Rightarrow> vec \<Rightarrow> vec \<Rightarrow> error + spectrum" where
  "broadband_iso m e k p for_corr ks pk_smooth_lin =
     bindE (if for_corr then Inr k
            else bindE (getp p ''alpha'') (\<lambda>alpha. Inr (map (\<lambda>x. x / alpha) k))) (\<lambda>kprime.
     bindE (getp p ''sigma_s'') (\<lambda>sigma_s.
     bindE (getp p ''b'') (\<lambda>b.
     bindE (if for_corr then Inr (None, smooth_term (mu m) ks pk_smooth_lin b sigma_s)
            else
              bindE (add_poly m e ks k p (np_ones (length kprime)) (A1 (np_zeros (length k))))
                (\<lambda>sp.
                  Inr (Some (if marg m then drop 1 (snd sp) else snd sp),
                       plus_nd (smooth_term (mu m) ks pk_smooth_lin b sigma_s) (fst sp)))) (\<lambda>res.
       Inr (A1 kprime,
            [splev_splrep e ks (simps_axis0 e (length ks) (snd res) (mu m)) kprime],
            fst res)))))"

section \<open>Arrays and errors: basic facts\<close>

lemma bindE_simps [simp]: "bindE (Inr v) f = f v" "bindE (Inl err) f = Inl err"
  by (simp_all add: bindE_def)

lemma bindE_Inr_iff: "bindE x f = Inr y \<longleftrightarrow> (\<exists>v. x = Inr v \<and> f v = Inr y)"
  by (cases x) simp_all

lemma getp_Inr_iff: "getp p key = Inr v \<longleftrightarrow> p key = Some v"
  by (simp add: getp_def split: option.splits)

lemma getp_Some [simp]: "p key = Some v \<Longrightarrow> getp p key = Inr v"
  by (simp add: getp_def)

lemma length_np_outer [simp]: "length (np_outer a b) = length a"
  by (simp add: np_outer_def)

lemma nth_np_outer: "i < length a \<Longrightarrow> np_outer a b ! i = map (\<lambda>y. a ! i * y) b"
  by (simp add: np_outer_def)

lemma length_mmap [simp]: "length (mmap f M) = length M"
  by (simp add: mmap_def)

lemma nth_mmap: "i < length M \<Longrightarrow> mmap f M ! i = map f (M ! i)"
  by (simp add: mmap_def)

lemma length_mzip [simp]: "length (mzip f A B) = min (length A) (length B)"
  by (simp add: mzip_def)

lemma nth_mzip: "i < length A \<Longrightarrow> i < length B \<Longrightarrow> mzip f A B ! i = map2 f (A ! i) (B ! i)"
  by (simp add: mzip_def)

lemma length_np_tile [simp]: "length (np_tile v n) = n"
  by (simp add: np_tile_def)

lemma nth_np_tile: "i < n \<Longrightarrow> np_tile v n ! i = v"
  by (simp add: np_tile_def)

lemma length_damp [simp]: "length (damp s M) = length M"
  by (simp add: damp_def)

lemma nth_damp: "i < length M \<Longrightarrow> damp s M ! i = map (\<lambda>x. exp (- x * s)) (M ! i)"
  by (simp add: damp_def nth_mmap)

lemma length_vsq [simp]: "length (vsq v) = length v"
  by (simp add: vsq_def)

lemma nth_vsq: "i < length v \<Longrightarrow> vsq v ! i = (v ! i) ^ 2"
  by (simp add: vsq_def)

lemma length_one_minus_sq [simp]: "length (one_minus_sq v) = length v"
  by (simp add: one_minus_sq_def)

lemma nth_one_minus_sq: "i < length v \<Longrightarrow> one_minus_sq v ! i = 1 - (v ! i) ^ 2"
  by (simp add: one_minus_sq_def nth_vsq)

lemma damp_outer_entry:
  "i < length a \<Longrightarrow> j < length b \<Longrightarrow> damp s (np_outer a b) ! i ! j = exp (- (a ! i * b ! j) * s)"
  by (simp add: nth_damp nth_np_outer)

lemma damp_outer_row_length:
  "i < length a \<Longrightarrow> length (damp s (np_outer a b) ! i) = length b"
  by (simp add: nth_damp nth_np_outer)

lemma pow_pair_entry:
  "i < length A \<Longrightarrow> i < length B \<Longrightarrow> j < length (A ! i) \<Longrightarrow> j < length (B ! i) \<Longrightarrow>
   pow_pair A B pp pq ! i ! j = (A ! i ! j) powr pp * (B ! i ! j) powr pq"
  by (simp add: pow_pair_def nth_mzip nth_mmap)

lemma get_damping_entry:
  "i < length (mu m) \<Longrightarrow> j < length (camb_ks m) \<Longrightarrow>
   get_damping m e f om ! i ! j =
     exp (- ((1 + (2 + f) * f * (mu m ! i) ^ 2) * (camb_ks m ! j) ^ 2 * get_pregen e ''sigma_nl'' om))"
  by (simp add: get_damping_def damp_outer_entry nth_vsq)

lemma get_damping_dd_entry:
  "i < length (mu m) \<Longrightarrow> j < length (camb_ks m) \<Longrightarrow>
   get_damping_dd m e f om ! i ! j =
     exp (- ((1 + (2 + f) * f * (mu m ! i) ^ 2) * (camb_ks m ! j) ^ 2 * get_pregen e ''sigma_dd_nl'' om))"
  by (simp add: get_damping_dd_def damp_outer_entry nth_vsq)

lemma get_damping_sd_entry:
  "i < length (mu m) \<Longrightarrow> j < length (camb_ks m) \<Longrightarrow>
   get_damping_sd m e f om ! i ! j =
     exp (- ((1 + f * (mu m ! i) ^ 2) * (camb_ks m ! j) ^ 2 * get_pregen e ''sigma_sd_nl'' om))"
  by (simp add: get_damping_sd_def damp_outer_entry nth_vsq)

lemma get_damping_ss_entry:
  "i < nmu m \<Longrightarrow> j < length (camb_ks m) \<Longrightarrow>
   get_damping_ss m e om ! i ! j =
     exp (- ((camb_ks m ! j) ^ 2 * get_pregen e ''sigma_ss_nl'' om))"
  by (simp add: get_damping_ss_def nth_damp nth_np_tile nth_vsq)

lemma aniso_getters_Inr:
  assumes "data_ks m dn = Inr ks"
  shows "get_damping_aniso_par m e g om dn =
           Inr (damp (get_pregen e ''sigma_nl'' om)
             (np_outer (map (\<lambda>k2. (1 + (2 + g) * g) * k2) (vsq ks)) (vsq (mu m))))"
    and "get_damping_aniso_perp m e om dn =
           Inr (damp (get_pregen e ''sigma_nl'' om) (np_outer (vsq ks) (one_minus_sq (mu m))))"
    and "get_damping_aniso_dd_par m e g om dn =
           Inr (damp (get_pregen e ''sigma_dd_nl'' om)
             (np_outer (map (\<lambda>k2. (1 + (2 + g) * g) * k2) (vsq ks)) (vsq (mu m))))"
    and "get_damping_aniso_dd_perp m e om dn =
           Inr (damp (get_pregen e ''sigma_dd_nl'' om) (np_outer (vsq ks) (one_minus_sq (mu m))))"
    and "get_damping_aniso_sd_par m e g om dn =
           Inr (damp (get_pregen e ''sigma_sd_nl'' om)
             (np_outer (map (\<lambda>k2. (1 + g) * k2) (vsq ks)) (vsq (mu m))))"
    and "get_damping_aniso_sd_perp m e om dn =
           Inr (damp (get_pregen e ''sigma_sd_nl'' om) (np_outer (vsq ks) (one_minus_sq (mu m))))"
    and "get_damping_aniso_ss_par m e om dn =
           Inr (damp (get_pregen e ''sigma_ss_nl'' om) (np_outer (vsq ks) (vsq (mu m))))"
    and "get_damping_aniso_ss_perp m e om dn =
           Inr (damp (get_pregen e ''sigma_ss_nl'' om) (np_outer (vsq ks) (one_minus_sq (mu m))))"
  using assms
  by (simp_all add: get_damping_aniso_par_def get_damping_aniso_perp_def
      get_damping_aniso_dd_par_def get_damping_aniso_dd_perp_def get_damping_aniso_sd_par_def
      get_damping_aniso_sd_perp_def get_damping_aniso_ss_par_def get_damping_aniso_ss_perp_def)

lemma aniso_damping_entry:
  assumes ks: "data_ks m dn = Inr ks" and i: "i < length ks" and j: "j < length (mu m)"
  shows "\<exists>D. aniso_damping m e g om dn alpha eps = Inr D \<and>
     D ! i ! j =
       exp (- ((1 + (2 + g) * g) * (ks ! i) ^ 2 * (mu m ! j) ^ 2 * get_pregen e ''sigma_nl'' om))
         powr (1 / (alpha ^ 2 * (1 + eps) ^ 4)) *
       exp (- ((ks ! i) ^ 2 * (1 - (mu m ! j) ^ 2) * get_pregen e ''sigma_nl'' om))
         powr ((1 + eps) ^ 2 / alpha ^ 2)"
  using i j
  by (simp add: aniso_damping_def aniso_getters_Inr [OF ks] pow_pair_entry damp_outer_entry
      damp_outer_row_length nth_vsq nth_one_minus_sq power_par_def power_perp_def)

section \<open>The damping arrays along the wavenumber axis\<close>

lemma coeff_nonneg:
  fixes f u2 :: real
  assumes "0 \<le> u2" "u2 \<le> 1"
  shows "0 \<le> 1 + (2 + f) * f * u2"
proof -
  have "(2 + f) * f = (f + 1) ^ 2 - 1"
    by (simp add: power2_eq_square algebra_simps)
  then have "- 1 \<le> (2 + f) * f"
    by simp
  then have "- 1 * u2 \<le> (2 + f) * f * u2"
    using assms(1) by (rule mult_right_mono)
  with assms(2) show ?thesis
    by simp
qed

lemma coeff_sd_nonneg:
  fixes f u2 :: real
  assumes "0 \<le> u2" "u2 \<le> 1" "- 1 \<le> f"
  shows "0 \<le> 1 + f * u2"
proof -
  have "- 1 * u2 \<le> f * u2"
    using assms(3) assms(1) by (rule mult_right_mono)
  with assms(2) show ?thesis
    by simp
qed

lemma exp_damp_antimono:
  fixes c s x y :: real
  assumes "0 \<le> c" "0 \<le> s" "0 \<le> x" "x \<le> y"
  shows "exp (- (c * y ^ 2 * s)) \<le> exp (- (c * x ^ 2 * s))"
proof -
  have "x ^ 2 \<le> y ^ 2"
    using assms(3,4) by (rule power_mono [OF _ _, rotated])
  then have "c * x ^ 2 \<le> c * y ^ 2"
    using assms(1) by (rule mult_left_mono)
  then have "c * x ^ 2 * s \<le> c * y ^ 2 * s"
    using assms(2) by (rule mult_right_mono)
  then show ?thesis
    by simp
qed

lemma grid_step:
  assumes "sorted (ks :: real list)" "\<forall>k\<in>set ks. 0 \<le> k" "j \<le> j'" "j' < length ks"
  shows "0 \<le> ks ! j \<and> ks ! j \<le> ks ! j'"
  using assms by (simp add: sorted_nth_mono)

lemma exp_damp_strict:
  fixes c s x y :: real
  assumes "0 < c" "0 < s" "0 \<le> x" "x < y"
  shows "exp (- (c * y ^ 2 * s)) < exp (- (c * x ^ 2 * s))"
proof -
  have "x ^ 2 < y ^ 2"
    using assms(3,4) by (simp add: power_strict_mono)
  then have "c * x ^ 2 < c * y ^ 2"
    using assms(1) by simp
  then have "c * x ^ 2 * s < c * y ^ 2 * s"
    using assms(2) by (rule mult_strict_right_mono)
  then show ?thesis
    by simp
qed

lemma coeff_pos:
  fixes f u2 :: real
  assumes "0 \<le> f" "0 \<le> u2"
  shows "0 < 1 + (2 + f) * f * u2" "0 < 1 + f * u2"
proof -
  have "0 \<le> (2 + f) * f * u2" "0 \<le> f * u2"
    using assms by simp_all
  then show "0 < 1 + (2 + f) * f * u2" "0 < 1 + f * u2"
    by linarith+
qed

text \<open>
  Claim C4. At a fixed angle the damping arrays fall along the wavenumber axis: on a
  sorted, nonnegative wavenumber grid, with the angular grid inside \<open>[-1, 1]\<close> and
  strictly positive damping scales, the entry at a later wavenumber is at most the entry
  at an earlier one for \<open>get_damping\<close>, \<open>get_damping_dd\<close> and
  \<open>get_damping_ss\<close> at every growth value, and for \<open>get_damping_sd\<close> at every
  growth value from \<open>-1\<close> upwards. Where the later wavenumber is the larger one the
  entry of \<open>get_damping_ss\<close> is strictly smaller, and so are those of the other
  three arrays at every growth value from 0 upwards.
\<close>

theorem damping_decreasing_in_k:
  assumes grid: "sorted (camb_ks m)" "\<forall>k\<in>set (camb_ks m). 0 \<le> k"
    and mus: "\<forall>u\<in>set (mu m). u ^ 2 \<le> 1"
    and sig: "0 < get_pregen e ''sigma_nl'' om" "0 < get_pregen e ''sigma_dd_nl'' om"
      "0 < get_pregen e ''sigma_sd_nl'' om" "0 < get_pregen e ''sigma_ss_nl'' om"
    and idx: "i < length (mu m)" "i < nmu m" "j \<le> j'" "j' < length (camb_ks m)"
  shows "get_damping m e f om ! i ! j' \<le> get_damping m e f om ! i ! j \<and>
         get_damping_dd m e f om ! i ! j' \<le> get_damping_dd m e f om ! i ! j \<and>
         get_damping_ss m e om ! i ! j' \<le> get_damping_ss m e om ! i ! j \<and>
         (- 1 \<le> f \<longrightarrow> get_damping_sd m e f om ! i ! j' \<le> get_damping_sd m e f om ! i ! j) \<and>
         (camb_ks m ! j < camb_ks m ! j' \<longrightarrow>
            get_damping_ss m e om ! i ! j' < get_damping_ss m e om ! i ! j \<and>
            (0 \<le> f \<longrightarrow>
               get_damping m e f om ! i ! j' < get_damping m e f om ! i ! j \<and>
               get_damping_dd m e f om ! i ! j' < get_damping_dd m e f om ! i ! j \<and>
               get_damping_sd m e f om ! i ! j' < get_damping_sd m e f om ! i ! j))"
proof -
  have j: "j < length (camb_ks m)"
    using idx by simp
  have k: "0 \<le> camb_ks m ! j" "camb_ks m ! j \<le> camb_ks m ! j'"
    using grid_step [OF grid idx(3,4)] by simp_all
  have u: "0 \<le> (mu m ! i) ^ 2" "(mu m ! i) ^ 2 \<le> 1"
    using mus idx(1) by simp_all
  have c: "0 \<le> 1 + (2 + f) * f * (mu m ! i) ^ 2"
    using u by (rule coeff_nonneg)
  have nl: "get_damping m e f om ! i ! j' \<le> get_damping m e f om ! i ! j"
    using exp_damp_antimono [OF c less_imp_le [OF sig(1)] k]
    by (simp add: get_damping_entry idx j)
  have dd: "get_damping_dd m e f om ! i ! j' \<le> get_damping_dd m e f om ! i ! j"
    using exp_damp_antimono [OF c less_imp_le [OF sig(2)] k]
    by (simp add: get_damping_dd_entry idx j)
  have ss: "get_damping_ss m e om ! i ! j' \<le> get_damping_ss m e om ! i ! j"
    using exp_damp_antimono [OF zero_le_one less_imp_le [OF sig(4)] k]
    by (simp add: get_damping_ss_entry idx j)
  have sd: "get_damping_sd m e f om ! i ! j' \<le> get_damping_sd m e f om ! i ! j" if "- 1 \<le> f"
    using exp_damp_antimono [OF coeff_sd_nonneg [OF u that] less_imp_le [OF sig(3)] k]
    by (simp add: get_damping_sd_entry idx j)
  have ss': "get_damping_ss m e om ! i ! j' < get_damping_ss m e om ! i ! j"
    if lt: "camb_ks m ! j < camb_ks m ! j'"
    using exp_damp_strict [OF zero_less_one sig(4) k(1) lt]
    by (simp add: get_damping_ss_entry idx j)
  have nl': "get_damping m e f om ! i ! j' < get_damping m e f om ! i ! j"
    and dd': "get_damping_dd m e f om ! i ! j' < get_damping_dd m e f om ! i ! j"
    and sd': "get_damping_sd m e f om ! i ! j' < get_damping_sd m e f om ! i ! j"
    if lt: "camb_ks m ! j < camb_ks m ! j'" and f: "0 \<le> f"
    using exp_damp_strict [OF coeff_pos(1) [OF f u(1)] sig(1) k(1) lt]
      exp_damp_strict [OF coeff_pos(1) [OF f u(1)] sig(2) k(1) lt]
      exp_damp_strict [OF coeff_pos(2) [OF f u(1)] sig(3) k(1) lt]
    by (simp_all add: get_damping_entry get_damping_dd_entry get_damping_sd_entry idx j)
  from nl dd ss sd ss' nl' dd' sd' show ?thesis
    by blast
qed

theorem damping_decreasing_in_k_witness:
  "get_damping demo_model demo_ext (1 / 2) 0.31 ! 1 ! 1
     < get_damping demo_model demo_ext (1 / 2) 0.31 ! 1 ! 0 \<and>
   get_damping_dd demo_model demo_ext (1 / 2) 0.31 ! 1 ! 1
     < get_damping_dd demo_model demo_ext (1 / 2) 0.31 ! 1 ! 0 \<and>
   get_damping_ss demo_model demo_ext 0.31 ! 1 ! 1
     < get_damping_ss demo_model demo_ext 0.31 ! 1 ! 0 \<and>
   get_damping_sd demo_model demo_ext (1 / 2) 0.31 ! 1 ! 1
     < get_damping_sd demo_model demo_ext (1 / 2) 0.31 ! 1 ! 0 \<and>
   get_damping_sd demo_model demo_ext (- 1) 0.31 ! 1 ! 1
     \<le> get_damping_sd demo_model demo_ext (- 1) 0.31 ! 1 ! 0"
  using damping_decreasing_in_k [of demo_model demo_ext "0.31" 1 0 1 "1 / 2"]
    damping_decreasing_in_k [of demo_model demo_ext "0.31" 1 0 1 "- 1"]
  by (simp add: demo_model_def demo_ext_def)

text \<open>
  For the growth value \<open>-2\<close> the coefficient \<open>1 + growth * mu ** 2\<close> of
  \<open>get_damping_sd\<close> is negative at \<open>mu = 1\<close>, and the array grows along a
  strictly increasing grid although its damping scale is positive.
\<close>

theorem damping_sd_increasing_counterexample:
  "sorted_wrt (<) (camb_ks demo_model) \<and>
   0 < get_pregen demo_ext ''sigma_sd_nl'' 0.31 \<and>
   get_damping_sd demo_model demo_ext (- 2) 0.31 ! 1 ! 0
     < get_damping_sd demo_model demo_ext (- 2) 0.31 ! 1 ! 1"
proof -
  have i: "1 < length (mu demo_model)" and j0: "0 < length (camb_ks demo_model)"
    and j1: "1 < length (camb_ks demo_model)"
    by (simp_all add: demo_model_def)
  show ?thesis
    unfolding get_damping_sd_entry [OF i j0] get_damping_sd_entry [OF i j1]
    by (simp add: demo_model_def demo_ext_def)
qed

section \<open>The damping formula\<close>

lemma aniso_damping_Inr:
  assumes "data_ks m dn = Inr ks"
  shows "aniso_damping m e g om dn alpha eps =
     Inr (pow_pair
       (damp (get_pregen e ''sigma_nl'' om)
          (np_outer (map (\<lambda>k2. (1 + (2 + g) * g) * k2) (vsq ks)) (vsq (mu m))))
       (damp (get_pregen e ''sigma_nl'' om) (np_outer (vsq ks) (one_minus_sq (mu m))))
       (power_par alpha eps) (power_perp alpha eps))"
  by (simp add: aniso_damping_def aniso_getters_Inr [OF assms])

lemma aniso_recon_dampings_Inr:
  assumes "data_ks m dn = Inr ks"
  shows "aniso_recon_dampings m e g om dn alpha eps =
     Inr (pow_pair
            (damp (get_pregen e ''sigma_dd_nl'' om)
               (np_outer (map (\<lambda>k2. (1 + (2 + g) * g) * k2) (vsq ks)) (vsq (mu m))))
            (damp (get_pregen e ''sigma_dd_nl'' om) (np_outer (vsq ks) (one_minus_sq (mu m))))
            (power_par alpha eps) (power_perp alpha eps),
          pow_pair
            (damp (get_pregen e ''sigma_sd_nl'' om)
               (np_outer (map (\<lambda>k2. (1 + g) * k2) (vsq ks)) (vsq (mu m))))
            (damp (get_pregen e ''sigma_sd_nl'' om) (np_outer (vsq ks) (one_minus_sq (mu m))))
            (power_par alpha eps) (power_perp alpha eps),
          pow_pair
            (damp (get_pregen e ''sigma_ss_nl'' om) (np_outer (vsq ks) (vsq (mu m))))
            (damp (get_pregen e ''sigma_ss_nl'' om) (np_outer (vsq ks) (one_minus_sq (mu m))))
            (power_par alpha eps) (power_perp alpha eps))"
  by (simp add: aniso_recon_dampings_def aniso_getters_Inr [OF assms])

lemma pow_pair_damp_entry:
  assumes "i < length a" "i < length c" "j < length b" "j < length d"
  shows "pow_pair (damp s (np_outer a b)) (damp s (np_outer c d)) pp pq ! i ! j =
     exp (- (a ! i * b ! j * s)) powr pp * exp (- (c ! i * d ! j * s)) powr pq"
  using assms
  by (simp add: pow_pair_entry damp_outer_entry damp_outer_row_length)

text \<open>
  Claim C3. \<open>get_damping(f, om)\<close> is the 2-D array over the model's angular grid
  and the provider's wavenumbers whose entry at \<open>(mu, k)\<close> is
  \<open>exp(-(1 + (2 + f) f mu\<^sup>2) k\<^sup>2 sigma\<^sup>2)\<close>, where \<open>sigma\<^sup>2\<close> is the
  precomputed scale \<open>get_pregen("sigma_nl", om)\<close>. In the anisotropic path every
  damping (the plain one, and the dd, sd and ss ones under reconstruction) is, entry by
  entry, its parallel array to the power \<open>1 / (alpha\<^sup>2 (1 + epsilon)\<^sup>4)\<close> times
  its perpendicular array to the power \<open>(1 + epsilon)\<^sup>2 / alpha\<^sup>2\<close>; \<open>epsilon\<close> is
  the path's variable of that name, \<open>p["epsilon"]\<close> rounded to five decimals.
\<close>

theorem get_damping_formula:
  assumes i: "i < length (mu m)" and j: "j < length (camb_ks m)"
    and ks: "data_ks m data_name = Inr ks" and r: "r < length ks"
  shows "get_damping m e f om ! i ! j =
           exp (- ((1 + (2 + f) * f * (mu m ! i) ^ 2) * (camb_ks m ! j) ^ 2 *
                    get_pregen e ''sigma_nl'' om)) \<and>
         length (get_damping m e f om) = length (mu m) \<and>
         length (get_damping m e f om ! i) = length (camb_ks m) \<and>
         (\<exists>par perp D.
            get_damping_aniso_par m e f om data_name = Inr par \<and>
            get_damping_aniso_perp m e om data_name = Inr perp \<and>
            aniso_damping m e f om data_name alpha epsilon = Inr D \<and>
            par ! r ! i =
              exp (- ((1 + (2 + f) * f) * (ks ! r) ^ 2 * (mu m ! i) ^ 2 *
                       get_pregen e ''sigma_nl'' om)) \<and>
            perp ! r ! i =
              exp (- ((ks ! r) ^ 2 * (1 - (mu m ! i) ^ 2) * get_pregen e ''sigma_nl'' om)) \<and>
            D ! r ! i =
              (par ! r ! i) powr (1 / (alpha ^ 2 * (1 + epsilon) ^ 4)) *
              (perp ! r ! i) powr ((1 + epsilon) ^ 2 / alpha ^ 2)) \<and>
         (\<exists>dd_par dd_perp sd_par sd_perp ss_par ss_perp dd sd ss.
            get_damping_aniso_dd_par m e f om data_name = Inr dd_par \<and>
            get_damping_aniso_dd_perp m e om data_name = Inr dd_perp \<and>
            get_damping_aniso_sd_par m e f om data_name = Inr sd_par \<and>
            get_damping_aniso_sd_perp m e om data_name = Inr sd_perp \<and>
            get_damping_aniso_ss_par m e om data_name = Inr ss_par \<and>
            get_damping_aniso_ss_perp m e om data_name = Inr ss_perp \<and>
            aniso_recon_dampings m e f om data_name alpha epsilon = Inr (dd, sd, ss) \<and>
            dd ! r ! i =
              (dd_par ! r ! i) powr (1 / (alpha ^ 2 * (1 + epsilon) ^ 4)) *
              (dd_perp ! r ! i) powr ((1 + epsilon) ^ 2 / alpha ^ 2) \<and>
            sd ! r ! i =
              (sd_par ! r ! i) powr (1 / (alpha ^ 2 * (1 + epsilon) ^ 4)) *
              (sd_perp ! r ! i) powr ((1 + epsilon) ^ 2 / alpha ^ 2) \<and>
            ss ! r ! i =
              (ss_par ! r ! i) powr (1 / (alpha ^ 2 * (1 + epsilon) ^ 4)) *
              (ss_perp ! r ! i) powr ((1 + epsilon) ^ 2 / alpha ^ 2))"
proof -
  have shape: "length (get_damping m e f om) = length (mu m)"
    "length (get_damping m e f om ! i) = length (camb_ks m)"
    using i by (simp_all add: get_damping_def damp_outer_row_length)
  have par: "damp (get_pregen e ''sigma_nl'' om)
        (np_outer (map (\<lambda>k2. (1 + (2 + f) * f) * k2) (vsq ks)) (vsq (mu m))) ! r ! i =
      exp (- ((1 + (2 + f) * f) * (ks ! r) ^ 2 * (mu m ! i) ^ 2 * get_pregen e ''sigma_nl'' om))"
    using r i by (simp add: damp_outer_entry nth_vsq)
  have perp: "damp (get_pregen e ''sigma_nl'' om) (np_outer (vsq ks) (one_minus_sq (mu m))) ! r ! i =
      exp (- ((ks ! r) ^ 2 * (1 - (mu m ! i) ^ 2) * get_pregen e ''sigma_nl'' om))"
    using r i by (simp add: damp_outer_entry nth_vsq nth_one_minus_sq)
  have pw: "pow_pair (damp s A) (damp s' B) (power_par alpha epsilon) (power_perp alpha epsilon) ! r ! i =
      (damp s A ! r ! i) powr (1 / (alpha ^ 2 * (1 + epsilon) ^ 4)) *
      (damp s' B ! r ! i) powr ((1 + epsilon) ^ 2 / alpha ^ 2)"
    if "r < length A" "r < length B" "i < length (A ! r)" "i < length (B ! r)" for s s' A B
    using that by (simp add: pow_pair_entry nth_damp power_par_def power_perp_def)
  have first: "get_damping m e f om ! i ! j =
      exp (- ((1 + (2 + f) * f * (mu m ! i) ^ 2) * (camb_ks m ! j) ^ 2 *
               get_pregen e ''sigma_nl'' om))"
    by (rule get_damping_entry [OF i j])
  have plain: "\<exists>par perp D.
      get_damping_aniso_par m e f om data_name = Inr par \<and>
      get_damping_aniso_perp m e om data_name = Inr perp \<and>
      aniso_damping m e f om data_name alpha epsilon = Inr D \<and>
      par ! r ! i =
        exp (- ((1 + (2 + f) * f) * (ks ! r) ^ 2 * (mu m ! i) ^ 2 *
                 get_pregen e ''sigma_nl'' om)) \<and>
      perp ! r ! i =
        exp (- ((ks ! r) ^ 2 * (1 - (mu m ! i) ^ 2) * get_pregen e ''sigma_nl'' om)) \<and>
      D ! r ! i =
        (par ! r ! i) powr (1 / (alpha ^ 2 * (1 + epsilon) ^ 4)) *
        (perp ! r ! i) powr ((1 + epsilon) ^ 2 / alpha ^ 2)"
    using par perp r i
    by (simp add: aniso_getters_Inr [OF ks] aniso_damping_Inr [OF ks] pw nth_np_outer)
  have rec: "\<exists>dd_par dd_perp sd_par sd_perp ss_par ss_perp dd sd ss.
      get_damping_aniso_dd_par m e f om data_name = Inr dd_par \<and>
      get_damping_aniso_dd_perp m e om data_name = Inr dd_perp \<and>
      get_damping_aniso_sd_par m e f om data_name = Inr sd_par \<and>
      get_damping_aniso_sd_perp m e om data_name = Inr sd_perp \<and>
      get_damping_aniso_ss_par m e om data_name = Inr ss_par \<and>
      get_damping_aniso_ss_perp m e om data_name = Inr ss_perp \<and>
      aniso_recon_dampings m e f om data_name alpha epsilon = Inr (dd, sd, ss) \<and>
      dd ! r ! i =
        (dd_par ! r ! i) powr (1 / (alpha ^ 2 * (1 + epsilon) ^ 4)) *
        (dd_perp ! r ! i) powr ((1 + epsilon) ^ 2 / alpha ^ 2) \<and>
      sd ! r ! i =
        (sd_par ! r ! i) powr (1 / (alpha ^ 2 * (1 + epsilon) ^ 4)) *
        (sd_perp ! r ! i) powr ((1 + epsilon) ^ 2 / alpha ^ 2) \<and>
      ss ! r ! i =
        (ss_par ! r ! i) powr (1 / (alpha ^ 2 * (1 + epsilon) ^ 4)) *
        (ss_perp ! r ! i) powr ((1 + epsilon) ^ 2 / alpha ^ 2)"
    using r i
    by (simp add: aniso_getters_Inr [OF ks] aniso_recon_dampings_Inr [OF ks] pw nth_np_outer)
  from first shape plain rec show ?thesis
    by blast
qed

theorem get_damping_formula_witness:
  "get_damping demo_model demo_ext (1 / 2) 0.31 ! 1 ! 1 =
     exp (- ((1 + (2 + 1 / 2) * (1 / 2) * (mu demo_model ! 1) ^ 2) * (camb_ks demo_model ! 1) ^ 2 *
              get_pregen demo_ext ''sigma_nl'' 0.31)) \<and>
   length (get_damping demo_model demo_ext (1 / 2) 0.31) = 2 \<and>
   (\<exists>D. aniso_damping demo_model demo_ext (1 / 2) 0.31 None 1 0 = Inr D) \<and>
   (\<exists>D. aniso_recon_dampings demo_model demo_ext (1 / 2) 0.31 None 1 0 = Inr D)"
proof -
  have i: "1 < length (mu demo_model)" and j: "1 < length (camb_ks demo_model)"
    and ks: "data_ks demo_model None = Inr [1, 2]" and r: "1 < length [1 :: real, 2]"
    by (simp_all add: demo_model_def data_ks_def)
  have len: "length (mu demo_model) = 2"
    by (simp add: demo_model_def)
  show ?thesis
    using get_damping_formula [OF i j ks r, of demo_ext "1 / 2" "0.31" 1 0] len
    by auto
qed

section \<open>The constructor of PowerDing2018\<close>

text \<open>
  Claim C9. A poly-term count other than 0, 3 or 5 makes the constructor of
  \<open>PowerDing2018\<close> raise NotImplementedError before anything else runs, and so does
  a reconstruction type "sym" or "ani" recorded by the base constructor; the constructor
  returns an instance only when neither is the case, and it catches no exception.
\<close>

theorem power_ding2018_init_rejects:
  "(a_n_poly a \<noteq> 0 \<and> a_n_poly a \<noteq> 3 \<and> a_n_poly a \<noteq> 5 \<longrightarrow>
      power_ding2018_init super_init set_marg a =
        Inl (NotImplementedError
          ''Models require n_poly to be 0, 3 or 5 polynomial terms per multipole'')) \<and>
   (\<forall>self. (a_n_poly a = 0 \<or> a_n_poly a = 3 \<or> a_n_poly a = 5) \<longrightarrow>
      super_init False a = Inr self \<longrightarrow>
      (recon_type self = ''sym'' \<or> recon_type self = ''ani'') \<longrightarrow>
      power_ding2018_init super_init set_marg a =
        Inl (NotImplementedError
          ''Symmetric and Anisotropic reconstruction not yet available for Ding2018 model'')) \<and>
   (\<forall>inst. power_ding2018_init super_init set_marg a = Inr inst \<longrightarrow>
      (a_n_poly a = 0 \<or> a_n_poly a = 3 \<or> a_n_poly a = 5) \<and>
      (\<exists>self. super_init False a = Inr self \<and> recon_type self \<noteq> ''sym'' \<and>
         recon_type self \<noteq> ''ani'' \<and>
         set_marg (a_fix_params a) (a_poly_poles a) (a_n_poly a) self = Inr inst))"
  by (auto simp: power_ding2018_init_def bindE_Inr_iff split: if_splits)

theorem power_ding2018_init_rejects_witness:
  "power_ding2018_init demo_super_init (\<lambda>f pp n s. Inr s) (demo_ding_args\<lparr>a_n_poly := 4\<rparr>) =
     Inl (NotImplementedError
       ''Models require n_poly to be 0, 3 or 5 polynomial terms per multipole'') \<and>
   power_ding2018_init demo_super_init (\<lambda>f pp n s. Inr s) demo_ding_args =
     Inl (NotImplementedError
       ''Symmetric and Anisotropic reconstruction not yet available for Ding2018 model'')"
proof -
  have n: "a_n_poly (demo_ding_args\<lparr>a_n_poly := 4\<rparr>) \<noteq> 0 \<and>
      a_n_poly (demo_ding_args\<lparr>a_n_poly := 4\<rparr>) \<noteq> 3 \<and>
      a_n_poly (demo_ding_args\<lparr>a_n_poly := 4\<rparr>) \<noteq> 5"
    by simp
  have ok: "a_n_poly demo_ding_args = 0 \<or> a_n_poly demo_ding_args = 3 \<or> a_n_poly demo_ding_args = 5"
    by (simp add: demo_ding_args_def)
  obtain self where s: "demo_super_init False demo_ding_args = Inr self"
    and rt: "recon_type self = ''sym''"
    by (simp add: demo_super_init_def demo_ding_args_def)
  from n ok s rt
    power_ding2018_init_rejects [of "demo_ding_args\<lparr>a_n_poly := 4\<rparr>" demo_super_init "\<lambda>f pp n s. Inr s"]
    power_ding2018_init_rejects [of demo_ding_args demo_super_init "\<lambda>f pp n s. Inr s"]
  show ?thesis
    by blast
qed

section \<open>The constructor and the parameters of CorrSeo2016\<close>

lemma str_nat_digit: "n < 10 \<Longrightarrow> str_nat n = [''0123456789'' ! n]"
  by simp

lemma poly_names_0: "poly_names 0 = [''a{0}_1'', ''a{0}_2'', ''a{0}_3'']"
  by (simp add: poly_names_def poly_name_def str_int_def)

lemma cm_params_add_param:
  "cm_params (add_param name label lo hi dflt s) =
     cm_params s @ [\<lparr>p_name = name, p_label = label, p_min = lo, p_max = hi, p_default = dflt\<rparr>]"
  by (simp add: add_param_def)

lemma cm_poly_poles_add_param [simp]:
  "cm_poly_poles (add_param name label lo hi dflt s) = cm_poly_poles s"
  by (simp add: add_param_def)

lemma cm_poly_poles_declare_pole [simp]: "cm_poly_poles (declare_pole pole s) = cm_poly_poles s"
  by (simp add: declare_pole_def)

lemma fold_declare_pole_poles: "cm_poly_poles (fold declare_pole poles s) = cm_poly_poles s"
  by (induction poles arbitrary: s) simp_all

lemma declared_names_pole:
  "map p_name (cm_params (declare_pole pole s)) = map p_name (cm_params s) @ poly_names pole"
  by (simp add: declare_pole_def cm_params_add_param poly_names_def)

lemma declared_names_poles:
  "map p_name (cm_params (fold declare_pole poles s)) =
     map p_name (cm_params s) @ concat (map poly_names poles)"
  by (induction poles arbitrary: s) (simp_all add: declared_names_pole)

lemma declared_names:
  "map p_name (cm_params (declare_parameters super_declare s)) =
     map p_name (cm_params (super_declare s)) @ [''b'', ''beta'', ''sigma_s''] @
       concat (map poly_names (cm_poly_poles (super_declare s)))"
  by (simp add: declare_parameters_def Let_def declared_names_poles cm_params_add_param)

lemma set_pole_defaults_eq:
  "set_pole_defaults pole s =
     s\<lparr>cm_params := map (\<lambda>q. if p_name q \<in> set (poly_names pole) then q\<lparr>p_default := 0\<rparr> else q)
          (cm_params s)\<rparr>"
  by (auto simp: set_pole_defaults_def set_default_def poly_names_def)

lemma fold_set_pole_defaults_eq:
  "fold set_pole_defaults poles s =
     s\<lparr>cm_params := map (\<lambda>q. if p_name q \<in> (\<Union>pole\<in>set poles. set (poly_names pole))
                              then q\<lparr>p_default := 0\<rparr> else q) (cm_params s)\<rparr>"
proof (induction poles arbitrary: s)
  case Nil
  then show ?case by simp
next
  case (Cons pole poles)
  have "fold set_pole_defaults (pole # poles) s =
      fold set_pole_defaults poles (set_pole_defaults pole s)"
    by simp
  also have "\<dots> = (set_pole_defaults pole s)
      \<lparr>cm_params := map (\<lambda>q. if p_name q \<in> (\<Union>pole\<in>set poles. set (poly_names pole))
                              then q\<lparr>p_default := 0\<rparr> else q)
                         (cm_params (set_pole_defaults pole s))\<rparr>"
    by (rule Cons.IH)
  also have "\<dots> = s
      \<lparr>cm_params := map (\<lambda>q. if p_name q \<in> (\<Union>pole\<in>set (pole # poles). set (poly_names pole))
                              then q\<lparr>p_default := 0\<rparr> else q) (cm_params s)\<rparr>"
    unfolding set_pole_defaults_eq [of pole s] by auto
  finally show ?case .
qed

lemma corr_init_Inr:
  assumes "corr_seo2016_init base_init power_seo2016 a = Inr self"
  shows "\<exists>s0 parent.
     base_init None (init_base_args a) = Inr s0 \<and>
     power_seo2016 (init_parent_args a) = Inr parent \<and>
     cm_poly_poles self = cm_poly_poles s0 \<and> cm_marg self = cm_marg s0 \<and>
     cm_parent self = Some parent \<and>
     cm_params self =
       (if cm_marg s0
        then map (\<lambda>q. if p_name q \<in> (\<Union>pole\<in>set (cm_poly_poles s0). set (poly_names pole))
                       then q\<lparr>p_default := 0\<rparr> else q) (cm_params s0)
        else cm_params s0)"
  using assms
  by (auto simp: corr_seo2016_init_def bindE_Inr_iff Let_def fold_set_pole_defaults_eq)

text \<open>
  Claim C10. Constructing \<open>CorrSeo2016\<close> with \<open>isotropic=True\<close> hands
  \<open>poly_poles = [0]\<close> to the base constructor whatever the argument was; with a
  base constructor that stores the poles it is given, the instance has
  \<open>poly_poles = [0]\<close>, and \<open>declare_parameters\<close> on it declares, after the
  inherited parameters and \<open>b\<close>, \<open>beta\<close>, \<open>sigma_s\<close>, exactly the monopole
  terms \<open>a{0}_1\<close>, \<open>a{0}_2\<close>, \<open>a{0}_3\<close>.
\<close>

theorem isotropic_poly_poles:
  assumes iso: "c_isotropic a"
    and stores: "\<forall>scale ba s. base_init scale ba = Inr s \<longrightarrow> cm_poly_poles s = b_poly_poles ba"
    and ok: "corr_seo2016_init base_init power_seo2016 a = Inr self"
    and sup: "cm_poly_poles (super_declare self) = cm_poly_poles self"
  shows "b_poly_poles (init_base_args a) = [0] \<and>
         cm_poly_poles self = [0] \<and>
         map p_name (cm_params (declare_parameters super_declare self)) =
           map p_name (cm_params (super_declare self)) @
             [''b'', ''beta'', ''sigma_s'', ''a{0}_1'', ''a{0}_2'', ''a{0}_3'']"
proof -
  have b: "b_poly_poles (init_base_args a) = [0]"
    using iso by (simp add: init_base_args_def init_poly_poles_def)
  obtain s0 where s0: "base_init None (init_base_args a) = Inr s0"
    and eq: "cm_poly_poles self = cm_poly_poles s0"
    using corr_init_Inr [OF ok] by blast
  have poles: "cm_poly_poles self = [0]"
    using stores s0 eq b by simp
  show ?thesis
    using b poles sup by (simp add: declared_names poly_names_0)
qed

theorem isotropic_poly_poles_witness:
  "\<exists>self. corr_seo2016_init demo_base_init (\<lambda>q. Inr demo_model) demo_corr_args = Inr self \<and>
     c_poly_poles demo_corr_args = [0, 2] \<and>
     cm_poly_poles self = [0] \<and>
     map p_name (cm_params (declare_parameters (\<lambda>s. s) self)) =
       map p_name (cm_params self) @
         [''b'', ''beta'', ''sigma_s'', ''a{0}_1'', ''a{0}_2'', ''a{0}_3'']"
proof -
  have iso: "c_isotropic demo_corr_args"
    by (simp add: demo_corr_args_def)
  have stores: "\<forall>scale ba s. demo_base_init scale ba = Inr s \<longrightarrow> cm_poly_poles s = b_poly_poles ba"
    by (auto simp: demo_base_init_def declare_parameters_def Let_def fold_declare_pole_poles)
  obtain self where ok:
    "corr_seo2016_init demo_base_init (\<lambda>q. Inr demo_model) demo_corr_args = Inr self"
    by (simp add: corr_seo2016_init_def demo_base_init_def Let_def)
  have args: "c_poly_poles demo_corr_args = [0, 2]"
    by (simp add: demo_corr_args_def)
  from isotropic_poly_poles [OF iso stores ok, of "\<lambda>s. s"] ok args show ?thesis
    by simp
qed

section \<open>What compute_power_spectrum returns\<close>

lemma compute_iso_Inr:
  assumes "compute_iso m e k p smooth fc ks psl pr = Inr (kp, pk, poly)"
  shows "length pk = 1 \<and>
     (fc \<longrightarrow> kp = A1 k \<and> poly = None) \<and>
     (\<not> fc \<longrightarrow>
        (\<exists>alpha. p ''alpha'' = Some alpha \<and> kp = A1 (map (\<lambda>x. x / alpha) k)) \<and>
        (\<exists>prefac sp. add_poly m e ks k p prefac (A1 (np_zeros (length k))) = Inr sp \<and>
           poly = Some (if marg m then drop 1 (snd sp) else snd sp)))"
proof (cases fc)
  case True
  with assms show ?thesis
    by (auto simp: compute_iso_def bindE_Inr_iff Let_def)
next
  case False
  with assms show ?thesis
    by (fastforce simp: compute_iso_def bindE_Inr_iff Let_def getp_Inr_iff)
qed

lemma compute_aniso_Inr:
  assumes "compute_aniso m e k p smooth fc dn ks psl pr = Inr (kp, pk, poly)"
  shows "\<exists>pk2d.
     (fc \<longrightarrow> kp = A1 k \<and> poly = None \<and> pk = six_poles e k pk2d) \<and>
     (\<not> fc \<longrightarrow>
        (\<exists>sp. add_poly m e k k p (np_ones (length k)) (A2 (six_poles e k pk2d)) = Inr sp \<and>
           (marg m \<longrightarrow> pk = six_poles e k pk2d \<and> poly = Some (drop 1 (snd sp))) \<and>
           (\<not> marg m \<longrightarrow>
              add_shape (poly_poles m) (fst sp) (six_poles e k pk2d) = Inr pk \<and>
              poly = Some (snd sp))))"
proof (cases fc)
  case True
  with assms show ?thesis
    unfolding compute_aniso_def
    by (auto simp: bindE_Inr_iff Let_def)
next
  case False
  with assms show ?thesis
    unfolding compute_aniso_def
    by (cases "marg m") (fastforce simp: bindE_Inr_iff Let_def)+
qed


lemma compute_power_spectrum_Inr:
  assumes "compute_power_spectrum m e k p smooth fc dn = Inr r"
  shows "\<exists>ks psl pr p1.
     basic_components m e p = Inr (ks, psl, pr) \<and>
     p1 = (if \<not> fc \<and> p ''b'' = None then deal_with_ndata e p 0 else p) \<and>
     (isotropic m \<longrightarrow> compute_iso m e k p1 smooth fc ks psl pr = Inr r) \<and>
     (\<not> isotropic m \<longrightarrow> compute_aniso m e k p1 smooth fc dn ks psl pr = Inr r)"
  using assms
  by (cases "isotropic m") (auto simp: compute_power_spectrum_def bindE_Inr_iff Let_def)

lemma py_pos_update [simp]: "py_pos (xs[n := x]) i = py_pos xs i"
  by (simp add: py_pos_def)

lemma add_shape_keeps:
  assumes "add_shape poles shape pk = Inr pk'"
  shows "length pk' = length pk \<and>
     (\<forall>n<length pk. (\<forall>pole\<in>set poles. py_pos pk pole \<noteq> n) \<longrightarrow> pk' ! n = pk ! n)"
  using assms
proof (induction poles arbitrary: pk)
  case Nil
  then show ?case by simp
next
  case (Cons pole poles)
  from Cons.prems obtain cur new where
    rest: "add_shape poles shape (pk[py_pos pk pole := new]) = Inr pk'"
    by (auto split: sum.splits)
  from Cons.IH [OF rest] show ?case
    by auto
qed

lemma six_poles_simps [simp]:
  "length (six_poles e k pk2d) = 6"
  "six_poles e k pk2d ! 0 = fst (integrate_mu e pk2d)"
  "six_poles e k pk2d ! 1 = np_zeros (length k)"
  "six_poles e k pk2d ! 2 = fst (snd (integrate_mu e pk2d))"
  "six_poles e k pk2d ! 3 = np_zeros (length k)"
  "six_poles e k pk2d ! 4 = snd (snd (integrate_mu e pk2d))"
  "six_poles e k pk2d ! 5 = np_zeros (length k)"
  by (simp_all add: six_poles_def numeral_nat)

lemma even_pole_pos:
  assumes "pole = 0 \<or> pole = 2 \<or> pole = 4" "length pk = 6"
  shows "py_pos pk pole \<noteq> 1 \<and> py_pos pk pole \<noteq> 3 \<and> py_pos pk pole \<noteq> 5"
  using assms by (auto simp: py_pos_def)

text \<open>
  Claim C6. An isotropic model returns the monopole alone: the list of multipoles has one
  entry, so a quadrupole and a hexadecapole are absent. An anisotropic model returns six
  entries, the monopole, quadrupole and hexadecapole of \<open>integrate_mu\<close> at 0, 2 and 4
  and arrays of zeros of the length of \<open>k\<close> at 1, 3 and 5; when the polynomial shape
  is added into the list (neither \<open>for_corr\<close> nor \<open>marg\<close>), this is so for
  \<open>poly_poles\<close> among 0, 2 and 4, the poles the data model allows.
\<close>

theorem multipoles_returned:
  assumes "compute_power_spectrum m e k p smooth for_corr data_name = Inr (kprime, pk, poly)"
  shows "(isotropic m \<longrightarrow> length pk = 1) \<and>
     (\<not> isotropic m \<longrightarrow>
        (for_corr \<or> marg m \<longrightarrow>
           (\<exists>pk2d. pk = [fst (integrate_mu e pk2d), np_zeros (length k),
                          fst (snd (integrate_mu e pk2d)), np_zeros (length k),
                          snd (snd (integrate_mu e pk2d)), np_zeros (length k)])) \<and>
        (for_corr \<or> marg m \<or> set (poly_poles m) \<subseteq> {0, 2, 4} \<longrightarrow>
           length pk = 6 \<and> pk ! 1 = np_zeros (length k) \<and> pk ! 3 = np_zeros (length k) \<and>
           pk ! 5 = np_zeros (length k)))"
proof (cases "isotropic m")
  case True
  with compute_power_spectrum_Inr [OF assms] compute_iso_Inr show ?thesis
    by blast
next
  case False
  with compute_power_spectrum_Inr [OF assms] obtain ks psl pr p1 where
    an: "compute_aniso m e k p1 smooth for_corr data_name ks psl pr = Inr (kprime, pk, poly)"
    by blast
  from compute_aniso_Inr [OF an] obtain pk2d where full:
    "(for_corr \<longrightarrow> kprime = A1 k \<and> poly = None \<and> pk = six_poles e k pk2d) \<and>
     (\<not> for_corr \<longrightarrow>
        (\<exists>sp. add_poly m e k k p1 (np_ones (length k)) (A2 (six_poles e k pk2d)) = Inr sp \<and>
           (marg m \<longrightarrow> pk = six_poles e k pk2d \<and> poly = Some (drop 1 (snd sp))) \<and>
           (\<not> marg m \<longrightarrow>
              add_shape (poly_poles m) (fst sp) (six_poles e k pk2d) = Inr pk \<and>
              poly = Some (snd sp))))"
    by (rule exE)
  have fc: "for_corr \<longrightarrow> pk = six_poles e k pk2d"
    using full by blast
  have nfc: "\<not> for_corr \<longrightarrow>
      (\<exists>sp. (marg m \<longrightarrow> pk = six_poles e k pk2d) \<and>
         (\<not> marg m \<longrightarrow> add_shape (poly_poles m) (fst sp) (six_poles e k pk2d) = Inr pk))"
    using full by auto
  have direct: "pk = six_poles e k pk2d" if "for_corr \<or> marg m"
    using that fc nfc by blast
  have odd: "length pk = 6 \<and> pk ! 1 = np_zeros (length k) \<and> pk ! 3 = np_zeros (length k) \<and>
      pk ! 5 = np_zeros (length k)"
    if h: "for_corr \<or> marg m \<or> set (poly_poles m) \<subseteq> {0, 2, 4}"
  proof (cases "for_corr \<or> marg m")
    case True
    then show ?thesis
      using direct by (simp add: six_poles_def)
  next
    case False
    with nfc obtain sp where
      sh: "add_shape (poly_poles m) (fst sp) (six_poles e k pk2d) = Inr pk"
      by blast
    from False h have poles: "\<forall>pole\<in>set (poly_poles m). pole = 0 \<or> pole = 2 \<or> pole = 4"
      by auto
    have pos: "\<forall>pole\<in>set (poly_poles m).
        py_pos (six_poles e k pk2d) pole \<noteq> 1 \<and> py_pos (six_poles e k pk2d) pole \<noteq> 3 \<and>
        py_pos (six_poles e k pk2d) pole \<noteq> 5"
      using poles even_pole_pos [of _ "six_poles e k pk2d"] by simp
    have len: "length pk = 6" and keep: "\<forall>n<6.
        (\<forall>pole\<in>set (poly_poles m). py_pos (six_poles e k pk2d) pole \<noteq> n) \<longrightarrow>
        pk ! n = six_poles e k pk2d ! n"
      using add_shape_keeps [OF sh] by simp_all
    have "pk ! 1 = six_poles e k pk2d ! 1" "pk ! 3 = six_poles e k pk2d ! 3"
      "pk ! 5 = six_poles e k pk2d ! 5"
      using keep pos by simp_all
    with len show ?thesis
      by (simp only: six_poles_simps)
  qed
  from False direct odd show ?thesis
    by (auto simp: six_poles_def)
qed


lemma demo_iso_returns:
  "\<exists>r. compute_power_spectrum demo_model demo_ext [1, 2] demo_params True fc None = Inr r"
  by (simp add: compute_power_spectrum_def basic_components_def compute_iso_def getp_def
      demo_model_def demo_ext_def demo_params_def add_poly_def demo_poly_def Let_def)

lemma demo_aniso_returns:
  "\<exists>r. compute_power_spectrum (demo_model\<lparr>isotropic := False, marg := mg\<rparr>) demo_ext [1, 2]
     demo_params True fc None = Inr r"
  by (simp add: compute_power_spectrum_def basic_components_def compute_aniso_def getp_def
      rounded_growth_om_def demo_model_def demo_ext_def demo_params_def add_poly_def
      demo_poly_def Let_def six_poles_def shape_add_def py_index_def py_pos_def)

theorem multipoles_returned_witness:
  "(\<exists>kprime pk poly.
      compute_power_spectrum demo_model demo_ext [1, 2] demo_params True False None =
        Inr (kprime, pk, poly) \<and> length pk = 1) \<and>
   (\<exists>kprime pk poly.
      compute_power_spectrum (demo_model\<lparr>isotropic := False, marg := False\<rparr>) demo_ext [1, 2]
        demo_params True False None = Inr (kprime, pk, poly) \<and>
      length pk = 6 \<and> pk ! 1 = np_zeros 2 \<and> pk ! 3 = np_zeros 2 \<and> pk ! 5 = np_zeros 2)"
proof -
  obtain k1 pk1 poly1 where r1:
    "compute_power_spectrum demo_model demo_ext [1, 2] demo_params True False None =
       Inr (k1, pk1, poly1)"
    using demo_iso_returns [of False] by (metis prod_cases3)
  obtain k2 pk2 poly2 where r2:
    "compute_power_spectrum (demo_model\<lparr>isotropic := False, marg := False\<rparr>) demo_ext [1, 2]
       demo_params True False None = Inr (k2, pk2, poly2)"
    using demo_aniso_returns [of False False] by (metis prod_cases3)
  have iso: "isotropic demo_model"
    and an: "\<not> isotropic (demo_model\<lparr>isotropic := False, marg := False\<rparr>)"
    and poles: "set (poly_poles (demo_model\<lparr>isotropic := False, marg := False\<rparr>)) \<subseteq> {0, 2, 4}"
    by (simp_all add: demo_model_def)
  from multipoles_returned [OF r1] iso have "length pk1 = 1"
    by simp
  moreover from multipoles_returned [OF r2] an poles
  have "length pk2 = 6 \<and> pk2 ! 1 = np_zeros 2 \<and> pk2 ! 3 = np_zeros 2 \<and> pk2 ! 5 = np_zeros 2"
    by (simp add: numeral_2_eq_2)
  ultimately show ?thesis
    using r1 r2 by blast
qed

text \<open>
  Claim C8. With \<open>for_corr=True\<close> the evaluation injects no polynomial, the returned
  \<open>poly\<close> being None, and dilates nothing: the returned wavenumbers are the input
  \<open>k\<close> itself, in the isotropic and in the anisotropic path.
\<close>

theorem for_corr_result:
  assumes "compute_power_spectrum m e k p smooth True data_name = Inr (kprime, pk, poly)"
  shows "kprime = A1 k \<and> poly = None"
proof (cases "isotropic m")
  case True
  with compute_power_spectrum_Inr [OF assms] compute_iso_Inr show ?thesis
    by blast
next
  case False
  with compute_power_spectrum_Inr [OF assms] obtain ks psl pr p1 where
    an: "compute_aniso m e k p1 smooth True data_name ks psl pr = Inr (kprime, pk, poly)"
    by blast
  from compute_aniso_Inr [OF an] show ?thesis
    by auto
qed

theorem for_corr_result_witness:
  "(\<exists>pk. compute_power_spectrum demo_model demo_ext [1, 2] demo_params True True None =
      Inr (A1 [1, 2], pk, None)) \<and>
   (\<exists>pk. compute_power_spectrum (demo_model\<lparr>isotropic := False, marg := True\<rparr>) demo_ext [1, 2]
      demo_params True True None = Inr (A1 [1, 2], pk, None))"
proof -
  obtain k1 pk1 poly1 where r1:
    "compute_power_spectrum demo_model demo_ext [1, 2] demo_params True True None =
       Inr (k1, pk1, poly1)"
    using demo_iso_returns [of True] by (metis prod_cases3)
  obtain k2 pk2 poly2 where r2:
    "compute_power_spectrum (demo_model\<lparr>isotropic := False, marg := True\<rparr>) demo_ext [1, 2]
       demo_params True True None = Inr (k2, pk2, poly2)"
    using demo_aniso_returns [of True True] by (metis prod_cases3)
  from for_corr_result [OF r1] for_corr_result [OF r2] r1 r2 show ?thesis
    by simp
qed

section \<open>Marginalisation\<close>

lemma poly_names_in_fix:
  assumes "c_marg a \<noteq> None" "pole \<in> set (init_poly_poles a)"
  shows "set (poly_names pole) \<subseteq> set (init_fix_params a)"
  using assms by (auto simp: init_fix_params_def)

lemma corr_init_defaults:
  assumes ok: "corr_seo2016_init base_init power_seo2016 a = Inr self" and mg: "cm_marg self"
    and q: "q \<in> set (cm_params self)" and pole: "pole \<in> set (cm_poly_poles self)"
    and name: "p_name q \<in> set (poly_names pole)"
  shows "p_default q = 0"
proof -
  from corr_init_Inr [OF ok] obtain s0 parent where H:
    "base_init None (init_base_args a) = Inr s0 \<and>
     power_seo2016 (init_parent_args a) = Inr parent \<and>
     cm_poly_poles self = cm_poly_poles s0 \<and> cm_marg self = cm_marg s0 \<and>
     cm_parent self = Some parent \<and>
     cm_params self =
       (if cm_marg s0
        then map (\<lambda>q. if p_name q \<in> (\<Union>pole\<in>set (cm_poly_poles s0). set (poly_names pole))
                       then q\<lparr>p_default := 0\<rparr> else q) (cm_params s0)
        else cm_params s0)"
    by (elim exE) (rule that, assumption)
  from H mg have m0: "cm_marg s0"
    by simp
  from H have poles: "cm_poly_poles self = cm_poly_poles s0"
    by simp
  from H m0 have ps: "cm_params self =
      map (\<lambda>q. if p_name q \<in> (\<Union>pole\<in>set (cm_poly_poles s0). set (poly_names pole))
               then q\<lparr>p_default := 0\<rparr> else q) (cm_params s0)"
    by (simp only: if_True)
  from q obtain q0 where
    q0: "q = (if p_name q0 \<in> (\<Union>pole\<in>set (cm_poly_poles s0). set (poly_names pole))
              then q0\<lparr>p_default := 0\<rparr> else q0)"
    unfolding ps by (auto simp only: set_map)
  show ?thesis
  proof (cases "p_name q0 \<in> (\<Union>pole\<in>set (cm_poly_poles s0). set (poly_names pole))")
    case True
    with q0 show ?thesis by simp
  next
    case False
    with q0 have "q = q0" by simp
    with False pole poles name show ?thesis by auto
  qed
qed

text \<open>
  Claim C5. Under marginalisation (\<open>self.marg\<close> true, which the modes "full" and
  "partial" stand for) every polynomial-term array that \<open>compute_power_spectrum\<close>
  returns is the array built by \<open>add_three_poly\<close> or \<open>add_five_poly\<close> without its
  first entry, the bias term; with \<open>for_corr\<close> no array is returned at all. In the
  constructor of \<open>CorrSeo2016\<close>, when a marginalisation mode is given the names
  \<open>a{pole}_1\<close>, \<open>a{pole}_2\<close>, \<open>a{pole}_3\<close> of every pole are added to the fixed
  parameters handed on, and when \<open>self.marg\<close> is true every declared parameter of
  such a name has the default value zero.
\<close>

theorem marg_strips_bias_and_fixes_poly:
  "(\<forall>kprime pk poly.
      marg m \<longrightarrow>
      compute_power_spectrum m e k p smooth for_corr data_name = Inr (kprime, pk, poly) \<longrightarrow>
      (case poly of
         None \<Rightarrow> for_corr
       | Some terms \<Rightarrow>
           \<not> for_corr \<and>
           (\<exists>ks k' p' prefac pk' shape full.
              add_poly m e ks k' p' prefac pk' = Inr (shape, full) \<and> terms = drop 1 full))) \<and>
   (\<forall>pole. c_marg a \<noteq> None \<longrightarrow> pole \<in> set (init_poly_poles a) \<longrightarrow>
      set (poly_names pole) \<subseteq> set (b_fix_params (init_base_args a)) \<and>
      set (poly_names pole) \<subseteq> set (q_fix_params (init_parent_args a))) \<and>
   (\<forall>self q pole.
      corr_seo2016_init base_init power_seo2016 a = Inr self \<longrightarrow> cm_marg self \<longrightarrow>
      q \<in> set (cm_params self) \<longrightarrow> pole \<in> set (cm_poly_poles self) \<longrightarrow>
      p_name q \<in> set (poly_names pole) \<longrightarrow> p_default q = 0)"
proof (intro conjI allI impI)
  fix kprime pk poly
  assume mg: "marg m"
    and r: "compute_power_spectrum m e k p smooth for_corr data_name = Inr (kprime, pk, poly)"
  from compute_power_spectrum_Inr [OF r] obtain ks psl pr p1 where
    iso: "isotropic m \<longrightarrow> compute_iso m e k p1 smooth for_corr ks psl pr = Inr (kprime, pk, poly)"
    and an: "\<not> isotropic m \<longrightarrow>
      compute_aniso m e k p1 smooth for_corr data_name ks psl pr = Inr (kprime, pk, poly)"
    by blast
  show "case poly of
         None \<Rightarrow> for_corr
       | Some terms \<Rightarrow>
           \<not> for_corr \<and>
           (\<exists>ks k' p' prefac pk' shape full.
              add_poly m e ks k' p' prefac pk' = Inr (shape, full) \<and> terms = drop 1 full)"
  proof (cases "isotropic m")
    case True
    with iso have "compute_iso m e k p1 smooth for_corr ks psl pr = Inr (kprime, pk, poly)"
      by simp
    from compute_iso_Inr [OF this] mg show ?thesis
      by (cases for_corr) (auto, metis prod.collapse)
  next
    case False
    with an have "compute_aniso m e k p1 smooth for_corr data_name ks psl pr = Inr (kprime, pk, poly)"
      by simp
    from compute_aniso_Inr [OF this] mg show ?thesis
      by (cases for_corr) (auto, metis prod.collapse)
  qed
next
  fix pole
  assume "c_marg a \<noteq> None" "pole \<in> set (init_poly_poles a)"
  then show "set (poly_names pole) \<subseteq> set (b_fix_params (init_base_args a))"
    and "set (poly_names pole) \<subseteq> set (q_fix_params (init_parent_args a))"
    using poly_names_in_fix [of a pole]
    by (simp_all add: init_base_args_def init_parent_args_def)
next
  fix self q pole
  assume ok: "corr_seo2016_init base_init power_seo2016 a = Inr self"
    and mg: "cm_marg self" and q: "q \<in> set (cm_params self)"
    and pole: "pole \<in> set (cm_poly_poles self)" and name: "p_name q \<in> set (poly_names pole)"
  then show "p_default q = 0"
    by (rule corr_init_defaults)
qed


lemma demo_corr_init:
  "\<exists>self. corr_seo2016_init demo_base_init (\<lambda>a. Inr demo_model) demo_corr_args = Inr self \<and>
     cm_marg self \<and> cm_poly_poles self = [0] \<and>
     \<lparr>p_name = ''a{0}_1'', p_label = ''$a_{0,1}$'', p_min = - 100, p_max = 100, p_default = 0\<rparr>
       \<in> set (cm_params self)"
  by (simp add: corr_seo2016_init_def demo_base_init_def init_base_args_def init_parent_args_def
      init_poly_poles_def demo_corr_args_def declare_parameters_def declare_pole_def
      add_param_def set_pole_defaults_def set_default_def poly_name_def str_int_def Let_def)

theorem marg_strips_bias_and_fixes_poly_witness:
  "(\<exists>kprime pk terms ks k' p' prefac pk' shape full.
      compute_power_spectrum demo_model demo_ext [1, 2] demo_params True False None =
        Inr (kprime, pk, Some terms) \<and>
      add_poly demo_model demo_ext ks k' p' prefac pk' = Inr (shape, full) \<and>
      terms = drop 1 full) \<and>
   set (poly_names 0) \<subseteq> set (b_fix_params (init_base_args demo_corr_args)) \<and>
   (\<exists>self q. corr_seo2016_init demo_base_init (\<lambda>a. Inr demo_model) demo_corr_args = Inr self \<and>
      q \<in> set (cm_params self) \<and> p_name q = ''a{0}_1'' \<and> p_default q = 0)"
proof -
  note inst = marg_strips_bias_and_fixes_poly [of demo_model demo_ext "[1, 2]" demo_params True
      False None demo_corr_args demo_base_init "\<lambda>a. Inr demo_model"]
  have mg: "marg demo_model"
    by (simp add: demo_model_def)
  obtain k1 pk1 poly1 where r1:
    "compute_power_spectrum demo_model demo_ext [1, 2] demo_params True False None =
       Inr (k1, pk1, poly1)"
    using demo_iso_returns [of False] by (metis prod_cases3)
  from inst mg r1 have "case poly1 of
       None \<Rightarrow> False
     | Some terms \<Rightarrow>
         \<not> False \<and>
         (\<exists>ks k' p' prefac pk' shape full.
            add_poly demo_model demo_ext ks k' p' prefac pk' = Inr (shape, full) \<and>
            terms = drop 1 full)"
    by blast
  then have first: "\<exists>kprime pk terms ks k' p' prefac pk' shape full.
      compute_power_spectrum demo_model demo_ext [1, 2] demo_params True False None =
        Inr (kprime, pk, Some terms) \<and>
      add_poly demo_model demo_ext ks k' p' prefac pk' = Inr (shape, full) \<and>
      terms = drop 1 full"
    using r1 by (cases poly1) auto
  have "c_marg demo_corr_args \<noteq> None" "0 \<in> set (init_poly_poles demo_corr_args)"
    by (simp_all add: demo_corr_args_def init_poly_poles_def)
  with inst have second: "set (poly_names 0) \<subseteq> set (b_fix_params (init_base_args demo_corr_args))"
    by blast
  define q where
    "q = \<lparr>p_name = ''a{0}_1'', p_label = ''$a_{0,1}$'', p_min = - 100, p_max = 100,
           p_default = 0 :: real\<rparr>"
  obtain self where ok:
    "corr_seo2016_init demo_base_init (\<lambda>a. Inr demo_model) demo_corr_args = Inr self"
    and m: "cm_marg self" and poles: "cm_poly_poles self = [0]"
    and q: "q \<in> set (cm_params self)"
    using demo_corr_init unfolding q_def by blast
  have name: "p_name q = ''a{0}_1''"
    by (simp add: q_def)
  have "0 \<in> set (cm_poly_poles self)" "p_name q \<in> set (poly_names 0)"
    using poles name by (simp_all add: poly_names_0)
  with inst ok m q have "p_default q = 0"
    by blast
  with ok q name have third: "\<exists>self q.
      corr_seo2016_init demo_base_init (\<lambda>a. Inr demo_model) demo_corr_args = Inr self \<and>
      q \<in> set (cm_params self) \<and> p_name q = ''a{0}_1'' \<and> p_default q = 0"
    by blast
  from first second third show ?thesis
    by blast
qed

section \<open>The isotropic propagator\<close>

lemma mzip_row_length:
  "i < length A \<Longrightarrow> i < length B \<Longrightarrow>
   length (mzip f A B ! i) = min (length (A ! i)) (length (B ! i))"
  by (simp add: nth_mzip)

lemma mzip_entry:
  "i < length A \<Longrightarrow> i < length B \<Longrightarrow> j < length (A ! i) \<Longrightarrow> j < length (B ! i) \<Longrightarrow>
   mzip f A B ! i ! j = f (A ! i ! j) (B ! i ! j)"
  by (simp add: nth_mzip)

lemma mmap_row_length: "i < length M \<Longrightarrow> length (mmap f M ! i) = length (M ! i)"
  by (simp add: nth_mmap)

lemma mmap_entry: "i < length M \<Longrightarrow> j < length (M ! i) \<Longrightarrow> mmap f M ! i ! j = f (M ! i ! j)"
  by (simp add: nth_mmap)

lemma length_msq [simp]: "length (msq M) = length M"
  by (simp add: msq_def)

lemma msq_row_length: "i < length M \<Longrightarrow> length (msq M ! i) = length (M ! i)"
  by (simp add: msq_def nth_mmap)

lemma msq_entry: "i < length M \<Longrightarrow> j < length (M ! i) \<Longrightarrow> msq M ! i ! j = (M ! i ! j) ^ 2"
  by (simp add: msq_def nth_mmap)

lemma np_outer_row_length: "i < length a \<Longrightarrow> length (np_outer a b ! i) = length b"
  by (simp add: nth_np_outer)

lemma np_outer_entry: "i < length a \<Longrightarrow> j < length b \<Longrightarrow> np_outer a b ! i ! j = a ! i * b ! j"
  by (simp add: nth_np_outer)

lemma length_np_transpose [simp]: "length (np_transpose n M) = n"
  by (simp add: np_transpose_def)

lemma np_transpose_row: "i < n \<Longrightarrow> np_transpose n M ! i = map (\<lambda>r. r ! i) M"
  by (simp add: np_transpose_def)

lemma damping_row_lengths:
  "i < length (mu m) \<Longrightarrow> length (get_damping m e g om ! i) = length (camb_ks m)"
  "i < length (mu m) \<Longrightarrow> length (get_damping_dd m e g om ! i) = length (camb_ks m)"
  "i < length (mu m) \<Longrightarrow> length (get_damping_sd m e g om ! i) = length (camb_ks m)"
  "i < nmu m \<Longrightarrow> length (get_damping_ss m e om ! i) = length (camb_ks m)"
  by (simp_all add: get_damping_def get_damping_dd_def get_damping_sd_def get_damping_ss_def
      damp_outer_row_length nth_damp nth_np_tile nth_np_outer)

lemma damping_lengths [simp]:
  "length (get_damping m e g om) = length (mu m)"
  "length (get_damping_dd m e g om) = length (mu m)"
  "length (get_damping_sd m e g om) = length (mu m)"
  "length (get_damping_ss m e om) = nmu m"
  by (simp_all add: get_damping_def get_damping_dd_def get_damping_sd_def get_damping_ss_def)

lemma rounded_growth_om_Some:
  "p ''om'' = Some om_p \<Longrightarrow> p ''b'' = Some b \<Longrightarrow> p ''beta'' = Some beta \<Longrightarrow>
   rounded_growth_om p = Inr (np_round 5 (b * beta), np_round 5 om_p)"
  by (simp add: rounded_growth_om_def)

lemma bdelta_coeff_Some:
  "p ''b_delta'' = Some b_delta \<Longrightarrow> b \<noteq> 0 \<Longrightarrow> bdelta_coeff p b = Inr (0.5 * b_delta / b)"
  by (simp add: bdelta_coeff_def float_div_def)

lemmas entry_simps = mzip_entry mzip_row_length mmap_entry mmap_row_length msq_entry
  msq_row_length np_outer_entry np_outer_row_length nth_np_tile np_transpose_row
  damping_row_lengths nth_vsq

text \<open>
  Claim C1. In the isotropic evaluation with \<open>smooth\<close> false the propagator is
  computed for every parameter set that has the keys read and a nonzero \<open>b\<close>, and its
  entry at \<open>(mu, k)\<close> is, with reconstruction,
  \<open>(kaiser\<^sup>2 - bdelta\<^sup>2) damping_dd + 2 kaiser smooth damping_sd + smooth\<^sup>2 damping_ss\<close>
  and, without, \<open>(kaiser\<^sup>2 - bdelta\<^sup>2) damping\<close>, where
  \<open>bdelta = 0.5 b_delta / b k\<^sup>2\<close>, \<open>smooth\<close> is the smoothing kernel over \<open>b\<close> and
  \<open>kaiser\<close> is the Kaiser factor with the term \<open>bdelta\<close> added:
  \<open>1 - smooth + beta mu\<^sup>2 (1 - S) + bdelta\<close> with reconstruction,
  \<open>1 + beta mu\<^sup>2 + bdelta\<close> without.
\<close>

theorem iso_propagator_formula:
  assumes om: "p ''om'' = Some om_p" and bb: "p ''b'' = Some b" and beta: "p ''beta'' = Some beta"
    and bd: "p ''b_delta'' = Some b_delta" and b0: "b \<noteq> 0"
    and i: "i < nmu m" "i < length (mu m)"
    and j: "j < length ks" "j < length (camb_ks m)" "j < length (camb_smoothing_kernel m)"
  shows "\<exists>P. iso_propagator m e p ks b = Inr P \<and>
     (let growth = np_round 5 (b * beta);
          om = np_round 5 om_p;
          s = camb_smoothing_kernel m ! j;
          smooth_prefac = s / b;
          bdelta_prefac = 0.5 * b_delta / b * (ks ! j) ^ 2;
          kaiser_prefac =
            (if recon m then 1 - smooth_prefac + beta * (mu m ! i) ^ 2 * (1 - s) + bdelta_prefac
             else 1 + beta * (mu m ! i) ^ 2 + bdelta_prefac)
      in P ! i ! j =
           (if recon m then
              (kaiser_prefac ^ 2 - bdelta_prefac ^ 2) * get_damping_dd m e growth om ! i ! j +
              2 * kaiser_prefac * smooth_prefac * get_damping_sd m e growth om ! i ! j +
              smooth_prefac ^ 2 * get_damping_ss m e om ! i ! j
            else (kaiser_prefac ^ 2 - bdelta_prefac ^ 2) * get_damping m e growth om ! i ! j))"
proof (cases "recon m")
  case True
  then show ?thesis
    using i j
    by (simp add: iso_propagator_def rounded_growth_om_Some [OF om bb beta] beta
        bdelta_coeff_Some bd b0 Let_def entry_simps)
next
  case False
  then show ?thesis
    using i j
    by (simp add: iso_propagator_def rounded_growth_om_Some [OF om bb beta] beta
        bdelta_coeff_Some bd b0 Let_def entry_simps)
qed


lemma np_round_demo: "np_round 5 (1 / 2) = 1 / 2" "np_round 5 (31 / 100) = 31 / 100"
  by (simp_all add: np_round_def rint_def)

theorem iso_propagator_formula_witness:
  "(\<exists>P. iso_propagator demo_model demo_ext demo_params [1, 2] 1 = Inr P \<and>
      P ! 1 ! 1 =
        81 / 64 * get_damping_dd demo_model demo_ext (1 / 2) 0.31 ! 1 ! 1 +
        9 / 16 * get_damping_sd demo_model demo_ext (1 / 2) 0.31 ! 1 ! 1 +
        1 / 16 * get_damping_ss demo_model demo_ext 0.31 ! 1 ! 1) \<and>
   (\<exists>P. iso_propagator (demo_model\<lparr>recon := False\<rparr>) demo_ext demo_params [1, 2] 1 = Inr P \<and>
      P ! 1 ! 1 = 9 / 4 * get_damping (demo_model\<lparr>recon := False\<rparr>) demo_ext (1 / 2) 0.31 ! 1 ! 1)"
proof -
  have p: "demo_params ''om'' = Some 0.31" "demo_params ''b'' = Some 1"
    "demo_params ''beta'' = Some (1 / 2)" "demo_params ''b_delta'' = Some 0"
    by (simp_all add: demo_params_def)
  have one: "(1 :: real) \<noteq> 0"
    by simp
  have idx: "1 < nmu demo_model" "1 < length (mu demo_model)" "1 < length [1 :: real, 2]"
    "1 < length (camb_ks demo_model)" "1 < length (camb_smoothing_kernel demo_model)"
    by (simp_all add: demo_model_def)
  have idx': "1 < nmu (demo_model\<lparr>recon := False\<rparr>)"
    "1 < length (mu (demo_model\<lparr>recon := False\<rparr>))"
    "1 < length (camb_ks (demo_model\<lparr>recon := False\<rparr>))"
    "1 < length (camb_smoothing_kernel (demo_model\<lparr>recon := False\<rparr>))"
    by (simp_all add: demo_model_def)
  have r: "recon demo_model" "\<not> recon (demo_model\<lparr>recon := False\<rparr>)"
    "mu demo_model ! Suc 0 = 1" "camb_smoothing_kernel demo_model ! Suc 0 = 1 / 4"
    "mu (demo_model\<lparr>recon := False\<rparr>) ! Suc 0 = 1"
    by (simp_all add: demo_model_def)
  from iso_propagator_formula [OF p one idx(1,2,3,4,5), of demo_ext]
  have a: "\<exists>P. iso_propagator demo_model demo_ext demo_params [1, 2] 1 = Inr P \<and>
      P ! 1 ! 1 =
        81 / 64 * get_damping_dd demo_model demo_ext (1 / 2) 0.31 ! 1 ! 1 +
        9 / 16 * get_damping_sd demo_model demo_ext (1 / 2) 0.31 ! 1 ! 1 +
        1 / 16 * get_damping_ss demo_model demo_ext 0.31 ! 1 ! 1"
    by (simp add: Let_def r np_round_demo power2_eq_square)
  from iso_propagator_formula [OF p one idx'(1,2) idx(3) idx'(3,4), of demo_ext]
  have b: "\<exists>P. iso_propagator (demo_model\<lparr>recon := False\<rparr>) demo_ext demo_params [1, 2] 1 = Inr P \<and>
      P ! 1 ! 1 = 9 / 4 * get_damping (demo_model\<lparr>recon := False\<rparr>) demo_ext (1 / 2) 0.31 ! 1 ! 1"
    by (simp add: Let_def r np_round_demo power2_eq_square)
  from a b show ?thesis
    by blast
qed

section \<open>Rounding and the damping caches\<close>

lemma lru_call_value:
  assumes "\<forall>kv\<in>set cache. snd kv = f (fst kv)"
  shows "fst (lru_call n f key cache) = f key \<and>
     (\<forall>kv\<in>set (snd (lru_call n f key cache)). snd kv = f (fst kv))"
proof (cases "map_of cache key")
  case None
  have "set (take n ((key, f key) # cache)) \<subseteq> set ((key, f key) # cache)"
    by (rule set_take_subset)
  with assms have "\<forall>kv\<in>set (take n ((key, f key) # cache)). snd kv = f (fst kv)"
    by auto
  with None show ?thesis
    by (simp add: lru_call_def)
next
  case (Some v)
  then have "(key, v) \<in> set cache"
    by (rule map_of_SomeD)
  with assms have "v = f key"
    by auto
  with Some show ?thesis
    using assms by (auto simp: lru_call_def)
qed

lemma lru_call_again:
  assumes "0 < n"
  shows "lru_call n f key (snd (lru_call n f key cache)) = lru_call n f key cache"
proof (cases "map_of cache key")
  case None
  then have "key \<notin> fst ` set cache"
    by (simp add: map_of_eq_None_iff)
  then have "\<forall>kv\<in>set (take (n - 1) cache). fst kv \<noteq> key"
    by (auto dest: in_set_takeD)
  then have keep: "filter (\<lambda>kv. fst kv \<noteq> key) (take (n - 1) cache) = take (n - 1) cache"
    by simp
  from assms obtain n' where n: "n = Suc n'"
    by (cases n) auto
  show ?thesis
    using None keep by (simp add: lru_call_def n)
next
  case (Some v)
  then show ?thesis
    by (simp add: lru_call_def)
qed

text \<open>
  Claim C7. Two parameter sets whose \<open>om\<close> and whose product \<open>b * beta\<close> round to
  the same five decimals give the damping getters the same arguments in the evaluation
  with \<open>smooth\<close> false: the pair \<open>(growth, om)\<close> of the two evaluations is one pair,
  so every damping array of the one is the array of the other, and a cached getter
  called for the second set after the first finds the entry of the first, returns its
  array and leaves the cache as it was.
\<close>

theorem rounding_shares_damping:
  assumes p1: "p1 ''om'' = Some om1" "p1 ''b'' = Some b1" "p1 ''beta'' = Some beta1"
    and p2: "p2 ''om'' = Some om2" "p2 ''b'' = Some b2" "p2 ''beta'' = Some beta2"
    and om: "np_round 5 om1 = np_round 5 om2"
    and growth: "np_round 5 (b1 * beta1) = np_round 5 (b2 * beta2)"
  shows "rounded_growth_om p1 = Inr (np_round 5 (b1 * beta1), np_round 5 om1) \<and>
     rounded_growth_om p2 = rounded_growth_om p1 \<and>
     get_damping m e (np_round 5 (b2 * beta2)) (np_round 5 om2) =
       get_damping m e (np_round 5 (b1 * beta1)) (np_round 5 om1) \<and>
     get_damping_dd m e (np_round 5 (b2 * beta2)) (np_round 5 om2) =
       get_damping_dd m e (np_round 5 (b1 * beta1)) (np_round 5 om1) \<and>
     get_damping_sd m e (np_round 5 (b2 * beta2)) (np_round 5 om2) =
       get_damping_sd m e (np_round 5 (b1 * beta1)) (np_round 5 om1) \<and>
     get_damping_ss m e (np_round 5 om2) = get_damping_ss m e (np_round 5 om1) \<and>
     aniso_damping m e (np_round 5 (b2 * beta2)) (np_round 5 om2) data_name alpha epsilon =
       aniso_damping m e (np_round 5 (b1 * beta1)) (np_round 5 om1) data_name alpha epsilon \<and>
     aniso_recon_dampings m e (np_round 5 (b2 * beta2)) (np_round 5 om2) data_name alpha epsilon =
       aniso_recon_dampings m e (np_round 5 (b1 * beta1)) (np_round 5 om1) data_name alpha epsilon \<and>
     lru_call 4 (\<lambda>key. get_damping_dd m e (fst key) (snd key))
         (np_round 5 (b2 * beta2), np_round 5 om2)
         (snd (lru_call 4 (\<lambda>key. get_damping_dd m e (fst key) (snd key))
                 (np_round 5 (b1 * beta1), np_round 5 om1) cache)) =
       lru_call 4 (\<lambda>key. get_damping_dd m e (fst key) (snd key))
         (np_round 5 (b1 * beta1), np_round 5 om1) cache \<and>
     lru_call 4 (get_damping_ss m e) (np_round 5 om2)
         (snd (lru_call 4 (get_damping_ss m e) (np_round 5 om1) cache')) =
       lru_call 4 (get_damping_ss m e) (np_round 5 om1) cache'"
  by (simp add: rounded_growth_om_Some [OF p1] rounded_growth_om_Some [OF p2]
      om [symmetric] growth [symmetric] lru_call_again)

theorem rounding_shares_damping_witness:
  "(0.31 :: real) \<noteq> 0.310001 \<and> (1 / 2 :: real) \<noteq> 1 * 0.500001 \<and>
   rounded_growth_om (demo_params(''om'' \<mapsto> 0.310001, ''beta'' \<mapsto> 0.500001)) =
     rounded_growth_om demo_params \<and>
   get_damping_dd demo_model demo_ext (np_round 5 (1 * 0.500001)) (np_round 5 0.310001) =
     get_damping_dd demo_model demo_ext (np_round 5 (1 * (1 / 2))) (np_round 5 0.31)"
proof -
  have p1: "demo_params ''om'' = Some 0.31" "demo_params ''b'' = Some 1"
    "demo_params ''beta'' = Some (1 / 2)"
    by (simp_all add: demo_params_def)
  have p2: "(demo_params(''om'' \<mapsto> 0.310001, ''beta'' \<mapsto> 0.500001)) ''om'' = Some 0.310001"
    "(demo_params(''om'' \<mapsto> 0.310001, ''beta'' \<mapsto> 0.500001)) ''b'' = Some 1"
    "(demo_params(''om'' \<mapsto> 0.310001, ''beta'' \<mapsto> 0.500001)) ''beta'' = Some 0.500001"
    by (simp_all add: demo_params_def)
  have om: "np_round 5 0.31 = np_round 5 0.310001"
    by (simp add: np_round_def rint_def)
  have growth: "np_round 5 (1 * (1 / 2)) = np_round 5 (1 * 0.500001)"
    by (simp add: np_round_def rint_def)
  note t = rounding_shares_damping [OF p1 p2 om growth, of demo_model demo_ext]
  from t have a: "rounded_growth_om (demo_params(''om'' \<mapsto> 0.310001, ''beta'' \<mapsto> 0.500001)) =
      rounded_growth_om demo_params"
    by blast
  from t have b:
    "get_damping_dd demo_model demo_ext (np_round 5 (1 * 0.500001)) (np_round 5 0.310001) =
     get_damping_dd demo_model demo_ext (np_round 5 (1 * (1 / 2))) (np_round 5 0.31)"
    by blast
  have c: "(0.31 :: real) \<noteq> 0.310001" "(1 / 2 :: real) \<noteq> 1 * 0.500001"
    by simp_all
  from a b c show ?thesis
    by blast
qed

section \<open>The evaluation with smooth set\<close>

lemma iso_pk_smooth_eq:
  "map (\<lambda>row. map2 (*) (map (\<lambda>s. b ^ 2 * s) psl) row)
     (mmap (\<lambda>x. 1 / (1 + x) ^ 2)
        (np_outer (vsq mus) (map (\<lambda>k2. k2 * sigma_s ^ 2 / 2) (vsq ks)))) =
   smooth_term mus ks psl b sigma_s"
  by (simp add: smooth_term_def mmap_def np_outer_def vsq_def)
    (intro ballI nth_equalityI, simp_all add: fingers_of_god_def min.commute)

lemma map2_times_ones:
  assumes "length r \<le> l"
  shows "map2 (*) r (replicate l (1 :: real)) = r"
  using assms by (intro nth_equalityI) simp_all

lemma times_nd_wiggle_zero:
  assumes "length pr = n" "\<forall>r\<in>set M. length r \<le> n"
  shows "times_nd M (wiggle pr (A1 (np_zeros n))) = M"
proof -
  have "map2 (\<lambda>r x. 1 + r * x) pr (replicate n 0) = replicate n (1 :: real)"
    using assms(1) by (intro nth_equalityI) simp_all
  then show ?thesis
    using assms(2)
    by (simp add: times_nd_def wiggle_def np_zeros_def mrow_def map2_times_ones map_idI)
qed

lemma smooth_term_rows: "\<forall>r\<in>set (smooth_term mus ks psl b sigma_s). length r \<le> length ks"
  by (auto simp: smooth_term_def)

lemma plus_nd_rows:
  assumes "\<forall>r\<in>set M. length r \<le> n"
  shows "\<forall>r\<in>set (plus_nd M sh). length r \<le> n"
proof (cases sh)
  case (A1 v)
  then show ?thesis
    using assms by (auto simp: plus_nd_def mrow_def)
next
  case (A2 N)
  then show ?thesis
    using assms by (auto simp: plus_nd_def mzip_def dest!: set_zip_leftD)
qed


lemma bindE_assoc: "bindE (bindE x f) h = bindE x (\<lambda>v. bindE (f v) h)"
  by (cases x) simp_all

lemma compute_iso_smooth:
  assumes "length pk_ratio = length ks"
  shows "compute_iso m e k p True for_corr ks pk_smooth_lin pk_ratio =
     broadband_iso m e k p for_corr ks pk_smooth_lin"
proof -
  have id: "times_nd M (wiggle pk_ratio (A1 (np_zeros (length ks)))) = M"
    if "\<forall>r\<in>set M. length r \<le> length ks" for M
    using assms that by (rule times_nd_wiggle_zero)
  have a: "times_nd (smooth_term (mu m) ks pk_smooth_lin b sigma_s)
        (wiggle pk_ratio (A1 (np_zeros (length ks)))) =
      smooth_term (mu m) ks pk_smooth_lin b sigma_s" for b sigma_s
    by (rule id) (rule smooth_term_rows)
  have b: "times_nd (plus_nd (smooth_term (mu m) ks pk_smooth_lin b sigma_s) sh)
        (wiggle pk_ratio (A1 (np_zeros (length ks)))) =
      plus_nd (smooth_term (mu m) ks pk_smooth_lin b sigma_s) sh" for b sigma_s sh
    by (rule id) (rule plus_nd_rows, rule smooth_term_rows)
  show ?thesis
    by (simp add: compute_iso_def broadband_iso_def iso_pk_smooth_eq a b Let_def bindE_assoc
        cong: if_cong)
qed

lemma compute_aniso_smooth:
  "compute_aniso m (e\<lparr>get_pregen := g\<rparr>) k p True for_corr data_name ks pk_smooth_lin pk_ratio' =
   compute_aniso m e k p True for_corr data_name ks pk_smooth_lin pk_ratio"
  by (simp add: compute_aniso_def add_poly_def six_poles_def splev_splrep2_def cong: if_cong)

lemma broadband_iso_pregen:
  "broadband_iso m (e\<lparr>get_pregen := g\<rparr>) k p for_corr ks pk_smooth_lin =
   broadband_iso m e k p for_corr ks pk_smooth_lin"
  by (simp add: broadband_iso_def add_poly_def splev_splrep_def simps_axis0_def cong: if_cong)


text \<open>
  Claim C2. With \<open>smooth=True\<close> the propagator contributes nothing and the call
  returns the pure broadband prediction. For an isotropic model whose wiggle ratio has
  the length of its wavenumber grid the whole result, errors included, is
  \<open>broadband_iso\<close>: the smooth-spectrum term (bias squared times smooth linear
  spectrum times Fingers-of-God factor), plus the polynomial shape unless
  \<open>for_corr\<close>, integrated over the angle and interpolated. That prediction does
  not depend on the damping scales, and in the anisotropic path the result with
  \<open>smooth=True\<close> depends neither on the damping scales nor on the wiggle ratio.
\<close>

theorem smooth_is_broadband:
  assumes iso: "isotropic m"
    and bc: "basic_components m e p = Inr (ks, pk_smooth_lin, pk_ratio)"
    and len: "length pk_ratio = length ks"
  shows "compute_power_spectrum m e k p True for_corr data_name =
           broadband_iso m e k
             (if \<not> for_corr \<and> p ''b'' = None then deal_with_ndata e p 0 else p)
             for_corr ks pk_smooth_lin \<and>
         broadband_iso m (e\<lparr>get_pregen := g\<rparr>) k p' for_corr ks pk_smooth_lin =
           broadband_iso m e k p' for_corr ks pk_smooth_lin \<and>
         compute_aniso m' (e\<lparr>get_pregen := g\<rparr>) k p' True for_corr data_name ks' psl' ratio' =
           compute_aniso m' e k p' True for_corr data_name ks' psl' ratio''"
proof -
  have "compute_power_spectrum m e k p True for_corr data_name =
      compute_iso m e k (if \<not> for_corr \<and> p ''b'' = None then deal_with_ndata e p 0 else p)
        True for_corr ks pk_smooth_lin pk_ratio"
    using iso bc by (simp add: compute_power_spectrum_def Let_def)
  then show ?thesis
    using compute_aniso_smooth [where m = m' and e = e and g = g and k = k and p = p'
        and for_corr = for_corr and data_name = data_name and ks = ks' and pk_smooth_lin = psl'
        and pk_ratio' = ratio' and pk_ratio = ratio'']
    by (simp only: compute_iso_smooth [OF len] broadband_iso_pregen)
qed

theorem smooth_is_broadband_witness:
  "compute_power_spectrum demo_model demo_ext [1, 2] demo_params True False None =
     broadband_iso demo_model demo_ext [1, 2] demo_params False [1, 2] [3, 4] \<and>
   (\<exists>r. broadband_iso demo_model demo_ext [1, 2] demo_params False [1, 2] [3, 4] = Inr r)"
proof -
  have iso: "isotropic demo_model"
    by (simp add: demo_model_def)
  have bc: "basic_components demo_model demo_ext demo_params = Inr ([1, 2], [3, 4], [1, 2])"
    by (simp add: basic_components_def demo_model_def demo_ext_def demo_params_def getp_def)
  have len: "length [1 :: real, 2] = length [1 :: real, 2]"
    by simp
  have b: "demo_params ''b'' \<noteq> None"
    by (simp add: demo_params_def)
  from smooth_is_broadband [OF iso bc len, of "[1, 2]" False None] b
  have eq: "compute_power_spectrum demo_model demo_ext [1, 2] demo_params True False None =
      broadband_iso demo_model demo_ext [1, 2] demo_params False [1, 2] [3, 4]"
    by simp
  with demo_iso_returns [of False] show ?thesis
    by simp
qed

end
